theory Spec2Isabelle
  imports Complex_Main
begin

section \<open>Strings as the browser sees them\<close>

text \<open>
  A JavaScript string is modelled as a \<open>string\<close>, one \<open>char\<close> per code unit below
  \<open>0x100\<close>. \<open>String.prototype.trim\<close> strips white space and line terminators from both
  ends; the ones that exist below \<open>0x100\<close> are TAB, LF, VT, FF, CR, SPACE and NBSP.
\<close>

definition is_space :: "char \<Rightarrow> bool" where
  "is_space c = (c \<in> set [CHR 0x09, CHR 0x0A, CHR 0x0B, CHR 0x0C, CHR 0x0D, CHR 0x20, CHR 0xA0])"

definition trim :: "string \<Rightarrow> string" where
  "trim s = rev (dropWhile is_space (rev (dropWhile is_space s)))"

text \<open>\<open>Number.prototype.toString\<close> on a non-negative integer: its decimal digits.\<close>

definition digit :: "nat \<Rightarrow> char" where
  "digit d = char_of (48 + d)"

function toString :: "nat \<Rightarrow> string" where
  "toString n = (if n < 10 then [digit n] else toString (n div 10) @ [digit (n mod 10)])"
  by pat_completeness auto
termination
  by (relation "measure (\<lambda>n. n)") auto

section \<open>What a request to the backend can come to\<close>

text \<open>
  A value thrown and caught: an \<open>Error\<close> with its message, or anything else. A
  \<open>fetch\<close> either rejects, or resolves to a response with its \<open>ok\<close> flag, its status
  and the outcome of reading what the caller wants of the body: the parsed body
  itself (which throws when the body is no JSON) or a property of it (which throws
  also when the body is \<open>null\<close>).
\<close>

datatype thrown = ErrorObject string | OtherValue

datatype 'a fetched = Rejected thrown | Response bool nat "thrown + 'a"

definition settle :: "'a fetched \<Rightarrow> thrown + 'a" where
  "settle r =
     (case r of
        Rejected e \<Rightarrow> Inl e
      | Response ok status body \<Rightarrow>
          if \<not> ok then Inl (ErrorObject (''HTTP error! status: '' @ toString status))
          else body)"

section \<open>components/JobStatus.tsx: the job list\<close>

subsection \<open>The \<open>Job\<close> interface\<close>

text \<open>
  \<open>interface Job\<close> of the component, field by field. An optional field is an
  \<open>option\<close>; \<open>None\<close> is JavaScript's \<open>undefined\<close>. A \<open>number\<close> is a \<open>real\<close>.
  The fields are prefixed because \<open>id\<close>, \<open>type\<close>, \<open>error\<close> and \<open>prompt\<close> name other
  things in this theory; the source's own names are kept in \<open>Job_interface\<close> below.
\<close>

record Job_result =
  collection_name :: "string option"
  documents_processed :: "real option"
  success :: "bool option"

record Job =
  job_id :: string
  job_type :: string
  job_status :: string
  job_prompt :: "string option"
  job_progress :: real
  job_created_at :: string
  job_error :: "string option"
  job_result :: "Job_result option"

subsection \<open>Rendering\<close>

datatype status_icon = CheckMark | CrossMark | Arrows | Hourglass | QuestionMark

definition getStatusColor :: "string \<Rightarrow> string" where
  "getStatusColor status =
     (if status = ''completed'' then ''text-green-600 bg-green-100''
      else if status = ''failed'' then ''text-red-600 bg-red-100''
      else if status = ''running'' then ''text-blue-600 bg-blue-100''
      else if status = ''pending'' then ''text-yellow-600 bg-yellow-100''
      else ''text-gray-600 bg-gray-100'')"

definition getStatusIcon :: "string \<Rightarrow> status_icon" where
  "getStatusIcon status =
     (if status = ''completed'' then CheckMark
      else if status = ''failed'' then CrossMark
      else if status = ''running'' then Arrows
      else if status = ''pending'' then Hourglass
      else QuestionMark)"

text \<open>
  One card of the list. \<open>card_time\<close> holds the \<open>created_at\<close> string that is handed to
  \<open>new Date(...).toLocaleTimeString()\<close> (the locale's formatting is not modelled);
  \<open>card_progress\<close> is the width of the bar in percent; \<open>card_results\<close> the two values of
  the results box (collection, documents); \<open>card_error\<close> the text after \<open>Error:\<close>.
  A string used as a condition is truthy when it is present and not empty; an object
  is truthy when it is present.
\<close>

record card =
  card_key :: string
  card_icon :: status_icon
  card_color :: string
  card_status :: string
  card_time :: string
  card_prompt :: "string option"
  card_progress :: "real option"
  card_results :: "(string option \<times> real option) option"
  card_error :: "string option"

definition truthy :: "string option \<Rightarrow> bool" where
  "truthy s = (case s of None \<Rightarrow> False | Some v \<Rightarrow> v \<noteq> [])"

definition render_job :: "Job \<Rightarrow> card" where
  "render_job job =
     \<lparr> card_key = job_id job,
       card_icon = getStatusIcon (job_status job),
       card_color = getStatusColor (job_status job),
       card_status = job_status job,
       card_time = job_created_at job,
       card_prompt = (if truthy (job_prompt job) then job_prompt job else None),
       card_progress =
         (if job_status job = ''running'' \<or> job_status job = ''pending''
          then Some (job_progress job * 100) else None),
       card_results =
         (if job_status job = ''completed''
          then (case job_result job of
                  None \<Rightarrow> None
                | Some r \<Rightarrow> Some (collection_name r, documents_processed r))
          else None),
       card_error =
         (if job_status job = ''failed'' \<and> truthy (job_error job)
          then job_error job else None) \<rparr>"

text \<open>
  What the component returns: the placeholder for an empty list, or the cards of
  \<open>jobs.slice(0, 5)\<close> followed, when \<open>jobs.length > 5\<close>, by the button
  "View all \<open>n\<close> jobs", of which the number \<open>n\<close> is kept.
\<close>

datatype view = NoJobsYet | JobList "card list" "nat option"

definition slice0 :: "nat \<Rightarrow> 'a list \<Rightarrow> 'a list" where
  "slice0 n xs = take n xs"

definition render_JobStatus :: "Job list \<Rightarrow> view" where
  "render_JobStatus jobs =
     (if length jobs = 0 then NoJobsYet
      else JobList (map render_job (slice0 5 jobs))
                   (if length jobs > 5 then Some (length jobs) else None))"

fun rendered_cards :: "view \<Rightarrow> card list" where
  "rendered_cards NoJobsYet = []"
| "rendered_cards (JobList cs b) = cs"

fun view_all_button :: "view \<Rightarrow> nat option" where
  "view_all_button NoJobsYet = None"
| "view_all_button (JobList cs b) = b"

subsection \<open>Values at run time\<close>

text \<open>
  \<open>interface Job\<close> is checked by the compiler only: what the component holds at run
  time is whatever \<open>response.json()\<close> returned. A value is \<open>undefined\<close> or a parsed JSON
  value. The number of an array or object is its identity: \<open>===\<close> on two of them
  compares the identities, and values parsed separately carry different numbers.
  The properties read in this component are properties of objects only: on a string,
  number, boolean or array they are \<open>undefined\<close>, and reading them from \<open>null\<close> or
  \<open>undefined\<close> throws a TypeError.
\<close>

datatype json = JUndefined | JNull | JBool bool | JNum real | JStr string
  | JArr nat "json list" | JObj nat "(string \<times> json) list"

fun property :: "json \<Rightarrow> string \<Rightarrow> json" where
  "property (JObj i fs) k = (case map_of fs k of None \<Rightarrow> JUndefined | Some v \<Rightarrow> v)"
| "property v k = JUndefined"

definition nullish :: "json \<Rightarrow> bool" where
  "nullish v = (v = JNull \<or> v = JUndefined)"

fun strict_equal :: "json \<Rightarrow> json \<Rightarrow> bool" where
  "strict_equal (JObj i fs) (JObj k gs) = (i = k)"
| "strict_equal (JArr i vs) (JArr k ws) = (i = k)"
| "strict_equal a b = (a = b)"

fun truthy_value :: "json \<Rightarrow> bool" where
  "truthy_value JUndefined = False"
| "truthy_value JNull = False"
| "truthy_value (JBool b) = b"
| "truthy_value (JNum x) = (x \<noteq> 0)"
| "truthy_value (JStr s) = (s \<noteq> [])"
| "truthy_value (JArr i vs) = True"
| "truthy_value (JObj i fs) = True"

subsection \<open>Rendering what is there at run time\<close>

text \<open>
  A value put between braces in JSX: \<open>undefined\<close>, \<open>null\<close> and booleans show nothing,
  a string shows its text, a number its digits (kept as the number), an array shows
  its elements one after the other, and an object makes React throw ("Objects are not
  valid as a React child").
\<close>

datatype react_error = TypeError | ObjectChild

datatype piece = TextOf string | NumberOf real

fun child :: "json \<Rightarrow> react_error + piece list"
  and children :: "json list \<Rightarrow> react_error + piece list" where
  "child JUndefined = Inr []"
| "child JNull = Inr []"
| "child (JBool b) = Inr []"
| "child (JNum x) = Inr [NumberOf x]"
| "child (JStr s) = Inr (if s = [] then [] else [TextOf s])"
| "child (JArr i vs) = children vs"
| "child (JObj i fs) = Inl ObjectChild"
| "children [] = Inr []"
| "children (v # vs) =
     (case child v of
        Inl e \<Rightarrow> Inl e
      | Inr ps \<Rightarrow> (case children vs of Inl e \<Rightarrow> Inl e | Inr qs \<Rightarrow> Inr (ps @ qs)))"

text \<open>
  \<open>{v && element}\<close>: the element when \<open>v\<close> is truthy; otherwise the value itself is the
  child, which shows nothing unless it is the number 0, shown as the text 0.
\<close>

datatype 'a slot = Hidden | ZeroText | Shown 'a

definition and_then :: "react_error + 'a \<Rightarrow> ('a \<Rightarrow> react_error + 'b) \<Rightarrow> react_error + 'b" where
  "and_then x f = (case x of Inl e \<Rightarrow> Inl e | Inr y \<Rightarrow> f y)"

definition guarded :: "json \<Rightarrow> react_error + 'a \<Rightarrow> react_error + 'a slot" where
  "guarded v element =
     (if truthy_value v then and_then element (\<lambda>y. Inr (Shown y))
      else Inr (case v of JNum x \<Rightarrow> ZeroText | _ \<Rightarrow> Hidden))"

text \<open>
  One card, from the value the list holds. \<open>shown_key\<close> is the value given as key,
  \<open>shown_time\<close> the value handed to \<open>new Date\<close>, \<open>shown_progress\<close> the value multiplied
  by 100 for the width of the bar (neither the date's formatting nor the conversion
  of that value to a number is modelled; neither throws); the other fields are what
  is shown. The \<open>title\<close> attribute takes any value.
\<close>

record shown_card =
  shown_key :: json
  shown_icon :: status_icon
  shown_color :: string
  shown_status :: "piece list"
  shown_time :: json
  shown_prompt :: "piece list slot"
  shown_progress :: "json option"
  shown_results :: "(piece list \<times> piece list) slot"
  shown_error :: "piece list slot"

definition status_icon_of :: "json \<Rightarrow> status_icon" where
  "status_icon_of v = (case v of JStr s \<Rightarrow> getStatusIcon s | _ \<Rightarrow> QuestionMark)"

definition status_color_of :: "json \<Rightarrow> string" where
  "status_color_of v = (case v of JStr s \<Rightarrow> getStatusColor s | _ \<Rightarrow> ''text-gray-600 bg-gray-100'')"

definition render_payload :: "json \<Rightarrow> react_error + shown_card" where
  "render_payload job =
     (if nullish job then Inl TypeError
      else
        and_then (child (property job ''status'')) (\<lambda>status_text.
        and_then (guarded (property job ''prompt'') (child (property job ''prompt'')))
          (\<lambda>prompt_line.
        and_then
          (if property job ''status'' = JStr ''completed''
           then guarded (property job ''result'')
                  (and_then (child (property (property job ''result'') ''collection_name''))
                     (\<lambda>collection.
                   and_then (child (property (property job ''result'') ''documents_processed''))
                     (\<lambda>documents. Inr (collection, documents))))
           else Inr Hidden)
          (\<lambda>results.
        and_then
          (if property job ''status'' = JStr ''failed''
           then guarded (property job ''error'') (child (property job ''error''))
           else Inr Hidden)
          (\<lambda>error_line.
        Inr \<lparr> shown_key = property job ''id'',
              shown_icon = status_icon_of (property job ''status''),
              shown_color = status_color_of (property job ''status''),
              shown_status = status_text,
              shown_time = property job ''created_at'',
              shown_prompt = prompt_line,
              shown_progress =
                (if property job ''status'' = JStr ''running''
                    \<or> property job ''status'' = JStr ''pending''
                 then Some (property job ''progress'') else None),
              shown_results = results,
              shown_error = error_line \<rparr>)))))"

text \<open>
  The component's render succeeds when each of the cards of \<open>jobs.slice(0, 5)\<close> does;
  a render that throws takes the component off the page.
\<close>

definition render_succeeds :: "json list \<Rightarrow> bool" where
  "render_succeeds js = list_all (\<lambda>job. \<not> isl (render_payload job)) (take 5 js)"

text \<open>A \<open>Job\<close> of the typed model as the value it is at run time.\<close>

definition from_option :: "('a \<Rightarrow> json) \<Rightarrow> 'a option \<Rightarrow> json" where
  "from_option f x = (case x of None \<Rightarrow> JUndefined | Some v \<Rightarrow> f v)"

definition optional :: "string \<Rightarrow> json \<Rightarrow> (string \<times> json) list" where
  "optional k v = (if v = JUndefined then [] else [(k, v)])"

definition Job_result_value :: "nat \<Rightarrow> Job_result \<Rightarrow> json" where
  "Job_result_value i r = JObj i
     (optional ''collection_name'' (from_option JStr (collection_name r))
      @ optional ''documents_processed'' (from_option JNum (documents_processed r))
      @ optional ''success'' (from_option JBool (success r)))"

definition Job_value :: "nat \<Rightarrow> Job \<Rightarrow> json" where
  "Job_value i job = JObj i
     ([(''id'', JStr (job_id job)), (''type'', JStr (job_type job)),
       (''status'', JStr (job_status job))]
      @ optional ''prompt'' (from_option JStr (job_prompt job))
      @ [(''progress'', JNum (job_progress job)), (''created_at'', JStr (job_created_at job))]
      @ optional ''error'' (from_option JStr (job_error job))
      @ optional ''result'' (from_option (Job_result_value (Suc i)) (job_result job)))"

text \<open>What an optional string or number of the typed model shows as a child.\<close>

definition text_pieces :: "string option \<Rightarrow> piece list" where
  "text_pieces s = (case s of None \<Rightarrow> [] | Some t \<Rightarrow> if t = [] then [] else [TextOf t])"

definition number_pieces :: "real option \<Rightarrow> piece list" where
  "number_pieces x = (case x of None \<Rightarrow> [] | Some n \<Rightarrow> [NumberOf n])"

subsection \<open>Polling\<close>

text \<open>
  A \<open>Set\<close> is the list of its elements in insertion order, without repetition:
  \<open>new Set(xs)\<close> adds the elements one by one, \<open>delete\<close> removes one. Elements are
  compared as \<open>===\<close> does.
\<close>

definition Set_has :: "json list \<Rightarrow> json \<Rightarrow> bool" where
  "Set_has s x = list_ex (\<lambda>y. strict_equal y x) s"

definition Set_add :: "json list \<Rightarrow> json \<Rightarrow> json list" where
  "Set_add s x = (if Set_has s x then s else s @ [x])"

definition new_Set :: "json list \<Rightarrow> json list" where
  "new_Set xs = foldl Set_add [] xs"

definition Set_delete :: "json list \<Rightarrow> json \<Rightarrow> json list" where
  "Set_delete s x = filter (\<lambda>y. \<not> strict_equal y x) s"

text \<open>
  \<open>updatedJobs.findIndex(j => j.id === jobId)\<close>: the first index whose job has the
  id, \<open>None\<close> for -1; it throws when it meets \<open>null\<close> before a match.
\<close>

fun findIndex_id :: "json \<Rightarrow> json list \<Rightarrow> react_error + nat option" where
  "findIndex_id x [] = Inr None"
| "findIndex_id x (j # js) =
     (if nullish j then Inl TypeError
      else if strict_equal (property j ''id'') x then Inr (Some 0)
      else (case findIndex_id x js of
              Inl e \<Rightarrow> Inl e
            | Inr found \<Rightarrow> Inr (map_option Suc found)))"

text \<open>
  The ids the second effect collects:
  \<open>jobs.filter(job => job.status === 'running' || job.status === 'pending').map(job => job.id)\<close>.
\<close>

fun tracked_ids :: "json list \<Rightarrow> react_error + json list" where
  "tracked_ids [] = Inr []"
| "tracked_ids (job # js) =
     (if nullish job then Inl TypeError
      else (case tracked_ids js of
              Inl e \<Rightarrow> Inl e
            | Inr ids \<Rightarrow>
                Inr (if property job ''status'' = JStr ''running''
                        \<or> property job ''status'' = JStr ''pending''
                     then property job ''id'' # ids else ids)))"

text \<open>
  One run of the interval's callback between two of its \<open>await\<close>s: its own
  \<open>updatedJobs\<close> and \<open>hasUpdates\<close>, the \<open>jobId\<close> whose answer it awaits, and the ids
  that remain of the set it iterates. That set is the one of the render the interval
  was created in; \<open>setPollingJobs\<close> builds a new set and leaves it as it is.
\<close>

record callback =
  updatedJobs :: "json list"
  hasUpdates :: bool
  jobId :: json
  remaining :: "json list"

text \<open>
  The component: its two states, the callbacks under way (\<open>None\<close> once one has
  returned), what has been fetched and answered so far, in order, and whether the
  component is off the page (after a render or an effect threw).
\<close>

datatype history_entry = Requested json | Answered json "json fetched"

record JobStatus_state =
  jobs :: "json list"
  pollingJobs :: "json list"
  callbacks :: "callback option list"
  history :: "history_entry list"
  unmounted :: bool

definition poll_interval_ms :: nat where
  "poll_interval_ms = 2000"

text \<open>
  The second effect, which runs after a render in which \<open>jobs\<close> changed, and the two
  state setters. A component off the page ignores them. \<open>setJobs\<close> is followed by
  the render and, when that succeeds, by the effect.
\<close>

definition track_running :: "JobStatus_state \<Rightarrow> JobStatus_state" where
  "track_running st =
     (case tracked_ids (jobs st) of
        Inl e \<Rightarrow> st\<lparr> unmounted := True \<rparr>
      | Inr ids \<Rightarrow> st\<lparr> pollingJobs := new_Set ids \<rparr>)"

definition setJobs :: "json list \<Rightarrow> JobStatus_state \<Rightarrow> JobStatus_state" where
  "setJobs js st =
     (if unmounted st then st
      else if render_succeeds js then track_running (st\<lparr> jobs := js \<rparr>)
      else st\<lparr> jobs := js, unmounted := True \<rparr>)"

definition delete_from_polling :: "json \<Rightarrow> JobStatus_state \<Rightarrow> JobStatus_state" where
  "delete_from_polling x st =
     (if unmounted st then st else st\<lparr> pollingJobs := Set_delete (pollingJobs st) x \<rparr>)"

definition JobStatus_mount :: "json list \<Rightarrow> JobStatus_state" where
  "JobStatus_mount initialJobs =
     setJobs initialJobs
       \<lparr> jobs = [], pollingJobs = [], callbacks = [], history = [], unmounted = False \<rparr>"

text \<open>
  What a callback does with the answer to its fetch, up to the next \<open>await\<close>: the new
  \<open>updatedJobs\<close> and \<open>hasUpdates\<close>, and whether \<open>setPollingJobs\<close> is called to delete
  the id. A rejected fetch, a body that is no JSON and an exception are caught and
  logged. The job is replaced before its status is read, so a body \<open>null\<close> is stored
  and the reading of its status is what throws.
\<close>

definition on_answer :: "json fetched \<Rightarrow> callback \<Rightarrow> callback \<times> bool" where
  "on_answer answer cb =
     (case answer of
        Rejected e \<Rightarrow> (cb, False)
      | Response ok status body \<Rightarrow>
          if ok
          then (case body of
                  Inl e \<Rightarrow> (cb, False)
                | Inr jobData \<Rightarrow>
                    (case findIndex_id (jobId cb) (updatedJobs cb) of
                       Inl e \<Rightarrow> (cb, False)
                     | Inr None \<Rightarrow> (cb, False)
                     | Inr (Some jobIndex) \<Rightarrow>
                         (cb\<lparr> updatedJobs := (updatedJobs cb)[jobIndex := jobData],
                              hasUpdates := True \<rparr>,
                          \<not> nullish jobData
                          \<and> (property jobData ''status'' = JStr ''completed''
                               \<or> property jobData ''status'' = JStr ''failed''))))
          else (cb, False))"

text \<open>
  What happens to the component: the interval fires, or the fetch that the callback
  number \<open>k\<close> awaits is answered. A firing starts a callback on the states of the last
  render, unless the polling set is empty or the component is off the page (the
  interval is cleared then). An answered callback goes on to its next id or, at the
  end of the set, calls \<open>setJobs\<close> if it has updates. The interval fires every
  \<open>poll_interval_ms\<close>; how long an answer takes is the backend's matter, so any order
  of firings and answers is a run.
\<close>

datatype JobStatus_event = Fire | Answer nat "json fetched"

definition fire :: "JobStatus_state \<Rightarrow> JobStatus_state" where
  "fire st =
     (if unmounted st then st
      else (case pollingJobs st of
              [] \<Rightarrow> st
            | first # others \<Rightarrow>
                st\<lparr> callbacks := callbacks st
                       @ [Some \<lparr> updatedJobs = jobs st, hasUpdates = False,
                                 jobId = first, remaining = others \<rparr>],
                    history := history st @ [Requested first] \<rparr>))"

definition resume :: "nat \<Rightarrow> callback \<Rightarrow> json fetched \<Rightarrow> JobStatus_state \<Rightarrow> JobStatus_state" where
  "resume k cb answer st =
     (case on_answer answer cb of
        (cb1, stop_polling) \<Rightarrow>
          (let st1 = (if stop_polling then delete_from_polling (jobId cb) st else st)
                       \<lparr> history := history st @ [Answered (jobId cb) answer] \<rparr>
           in case remaining cb1 of
                next_id # others \<Rightarrow>
                  st1\<lparr> callbacks := (callbacks st1)
                                      [k := Some (cb1\<lparr> jobId := next_id, remaining := others \<rparr>)],
                       history := history st1 @ [Requested next_id] \<rparr>
              | [] \<Rightarrow>
                  (let st2 = st1\<lparr> callbacks := (callbacks st1)[k := None] \<rparr>
                   in if hasUpdates cb1 then setJobs (updatedJobs cb1) st2 else st2)))"

fun JobStatus_step :: "JobStatus_event \<Rightarrow> JobStatus_state \<Rightarrow> JobStatus_state" where
  "JobStatus_step Fire st = fire st"
| "JobStatus_step (Answer k answer) st =
     (if k < length (callbacks st)
      then (case callbacks st ! k of None \<Rightarrow> st | Some cb \<Rightarrow> resume k cb answer st)
      else st)"

definition JobStatus_run :: "JobStatus_event list \<Rightarrow> JobStatus_state \<Rightarrow> JobStatus_state" where
  "JobStatus_run events st = foldl (\<lambda>s e. JobStatus_step e s) st events"

subsection \<open>The interface as data\<close>

text \<open>
  The part of TypeScript's types that \<open>interface Job\<close> uses. \<open>Field name optional type\<close>
  is one property of an interface. A value has an interface type when each required
  property is present with its type and each optional one is absent (\<open>undefined\<close>) or
  has its type; further properties are allowed.
\<close>

datatype ts_type = TString | TNumber | TBoolean | TInterface "ts_field list"
  and ts_field = Field string bool ts_type

fun conforms :: "json \<Rightarrow> ts_type \<Rightarrow> bool"
  and conforms_fields :: "json \<Rightarrow> ts_field list \<Rightarrow> bool" where
  "conforms v TString = (case v of JStr s \<Rightarrow> True | _ \<Rightarrow> False)"
| "conforms v TNumber = (case v of JNum x \<Rightarrow> True | _ \<Rightarrow> False)"
| "conforms v TBoolean = (case v of JBool b \<Rightarrow> True | _ \<Rightarrow> False)"
| "conforms v (TInterface fs) = (case v of JObj i ps \<Rightarrow> conforms_fields v fs | _ \<Rightarrow> False)"
| "conforms_fields v [] = True"
| "conforms_fields v (Field k opt t # fs) =
     (((opt \<and> property v k = JUndefined) \<or> conforms (property v k) t) \<and> conforms_fields v fs)"

definition Job_result_interface :: ts_type where
  "Job_result_interface = TInterface
     [Field ''collection_name'' True TString,
      Field ''documents_processed'' True TNumber,
      Field ''success'' True TBoolean]"

definition Job_interface :: ts_type where
  "Job_interface = TInterface
     [Field ''id'' False TString,
      Field ''type'' False TString,
      Field ''status'' False TString,
      Field ''prompt'' True TString,
      Field ''progress'' False TNumber,
      Field ''created_at'' False TString,
      Field ''error'' True TString,
      Field ''result'' True Job_result_interface]"



fun field_type :: "ts_field list \<Rightarrow> string \<Rightarrow> ts_type option" where
  "field_type [] k = None"
| "field_type (Field n opt t # fs) k = (if n = k then Some t else field_type fs k)"

fun declared_type :: "ts_type \<Rightarrow> string \<Rightarrow> ts_type option" where
  "declared_type (TInterface fs) k = field_type fs k"
| "declared_type t k = None"

section \<open>components/ChatInterface.tsx: sending a chat message\<close>

datatype chat_mode = Data_chat | Config_chat

fun chat_mode_value :: "chat_mode \<Rightarrow> string" where
  "chat_mode_value Data_chat = ''data''"
| "chat_mode_value Config_chat = ''config''"

datatype sender = User | Assistant

record Message =
  msg_id :: string
  msg_type :: sender
  content :: string
  timestamp :: nat

record ChatInterface_state =
  messages :: "Message list"
  input :: string
  selectedCollection :: string
  chat_isLoading :: bool

text \<open>The body of the request; \<open>context_collection = None\<close> is JSON's \<open>null\<close>.\<close>

record chat_request =
  message :: string
  context_collection :: "string option"
  chat_type :: string

text \<open>
  \<open>handleSubmit\<close> of the chat, run to its end: \<open>now1\<close> and \<open>now2\<close> are the clock
  readings before and after the request (the \<open>Date\<close> of a message is taken at the same
  reading as its id), \<open>fetch\<close> is the backend's answer, of which \<open>data.response\<close> is
  read. The result is the new state and the requests sent.
\<close>

definition ChatInterface_handleSubmit ::
  "chat_mode \<Rightarrow> nat \<Rightarrow> (chat_request \<Rightarrow> string fetched) \<Rightarrow> nat
     \<Rightarrow> ChatInterface_state \<Rightarrow> ChatInterface_state \<times> chat_request list" where
  "ChatInterface_handleSubmit type now1 fetch now2 st =
     (if trim (input st) = [] then (st, [])
      else
        let userMessage = \<lparr> msg_id = toString now1, msg_type = User,
                             content = trim (input st), timestamp = now1 \<rparr>;
            req = \<lparr> message = content userMessage,
                     context_collection =
                       (if type = Data_chat then Some (selectedCollection st) else None),
                     chat_type = chat_mode_value type \<rparr>;
            answer = (case settle (fetch req) of
                        Inr text \<Rightarrow> text
                      | Inl (ErrorObject m) \<Rightarrow> ''Error: '' @ m
                      | Inl OtherValue \<Rightarrow> ''Error: Failed to get response'');
            reply = \<lparr> msg_id = toString (now2 + 1), msg_type = Assistant,
                       content = answer, timestamp = now2 \<rparr>
        in (st\<lparr> messages := messages st @ [userMessage, reply],
                 input := [], chat_isLoading := False \<rparr>, [req]))"

section \<open>components/ScrapeForm.tsx: submitting a scrape\<close>

record ScrapeForm_state =
  prompt :: string
  sourceType :: string
  isLoading :: bool
  error :: string

definition ScrapeForm_initial :: ScrapeForm_state where
  "ScrapeForm_initial = \<lparr> prompt = [], sourceType = ''auto'', isLoading = False, error = [] \<rparr>"

record scrape_request =
  req_prompt :: string
  source_type :: string

text \<open>
  \<open>handleSubmit\<close> of the form, run to its end. The result is the new state, the
  requests sent to \<open>/scrape\<close> and the job ids handed to \<open>onJobCreated\<close>
  (\<open>data.job_id\<close> of the answer).
\<close>

definition ScrapeForm_handleSubmit ::
  "(scrape_request \<Rightarrow> string fetched) \<Rightarrow> ScrapeForm_state
     \<Rightarrow> ScrapeForm_state \<times> scrape_request list \<times> string list" where
  "ScrapeForm_handleSubmit fetch st =
     (if trim (prompt st) = [] then (st, [], [])
      else
        let req = \<lparr> req_prompt = trim (prompt st), source_type = sourceType st \<rparr>;
            st1 = st\<lparr> isLoading := True, error := [] \<rparr>
        in case settle (fetch req) of
             Inr created \<Rightarrow> (st1\<lparr> prompt := [], isLoading := False \<rparr>, [req], [created])
           | Inl (ErrorObject m) \<Rightarrow> (st1\<lparr> error := m, isLoading := False \<rparr>, [req], [])
           | Inl OtherValue \<Rightarrow>
               (st1\<lparr> error := ''Failed to start scraping job'', isLoading := False \<rparr>,
                [req], []))"

text \<open>
  The \<open>option\<close> elements of the select, with their \<open>value\<close> attributes, and what the
  user can do to the form: type into the textarea, choose an option, submit.
\<close>

datatype source_option = Auto_detect | Firecrawl | Apify | Local_files

fun option_value :: "source_option \<Rightarrow> string" where
  "option_value Auto_detect = ''auto''"
| "option_value Firecrawl = ''firecrawl''"
| "option_value Apify = ''apify''"
| "option_value Local_files = ''local''"

datatype ScrapeForm_event =
    ChangePrompt string
  | ChangeSourceType source_option
  | Submit "scrape_request \<Rightarrow> string fetched"

fun ScrapeForm_step ::
  "ScrapeForm_event \<Rightarrow> ScrapeForm_state \<Rightarrow> ScrapeForm_state \<times> scrape_request list \<times> string list" where
  "ScrapeForm_step (ChangePrompt text) st = (st\<lparr> prompt := text \<rparr>, [], [])"
| "ScrapeForm_step (ChangeSourceType opt) st = (st\<lparr> sourceType := option_value opt \<rparr>, [], [])"
| "ScrapeForm_step (Submit fetch) st = ScrapeForm_handleSubmit fetch st"

fun ScrapeForm_run ::
  "ScrapeForm_event list \<Rightarrow> ScrapeForm_state \<Rightarrow> ScrapeForm_state \<times> scrape_request list \<times> string list" where
  "ScrapeForm_run [] st = (st, [], [])"
| "ScrapeForm_run (e # es) st =
     (case ScrapeForm_step e st of
        (st1, sent1, created1) \<Rightarrow>
          (case ScrapeForm_run es st1 of
             (st2, sent2, created2) \<Rightarrow> (st2, sent1 @ sent2, created1 @ created2)))"

definition requests_sent :: "ScrapeForm_event list \<Rightarrow> scrape_request list" where
  "requests_sent es = fst (snd (ScrapeForm_run es ScrapeForm_initial))"

text \<open>The enumeration of the source-type hint in the words of the specification.\<close>

definition spec_sourceTypeHint :: "string set" where
  "spec_sourceTypeHint = {''auto'', ''remote-crawl'', ''advanced-crawl'', ''local''}"

text \<open>The \<open>value\<close> attributes of the select's options.\<close>

definition sourceType_values :: "string set" where
  "sourceType_values = {''auto'', ''firecrawl'', ''apify'', ''local''}"

text \<open>States and answers used as examples below.\<close>

definition chat_example :: ChatInterface_state where
  "chat_example = \<lparr> messages = [], input = ''Show me my current collections'',
       selectedCollection = ''Articles'', chat_isLoading = False \<rparr>"

definition no_backend :: "'r \<Rightarrow> 'a fetched" where
  "no_backend r = Rejected OtherValue"


definition spec_error_fields :: "(string \<times> bool) list" where
  "spec_error_fields = [(''kind'', False), (''message'', False)]"

definition has_shape :: "json \<Rightarrow> (string \<times> bool) list \<Rightarrow> bool" where
  "has_shape v fs =
     (case v of
        JObj i ps \<Rightarrow>
          list_all (\<lambda>(k, opt). opt \<or> k \<in> set (map fst ps)) fs
          \<and> list_all (\<lambda>k. k \<in> set (map fst fs)) (map fst ps)
      | _ \<Rightarrow> False)"




definition failed_payload :: json where
  "failed_payload = JObj 5
     [(''id'', JStr ''job-2''), (''type'', JStr ''scrape''), (''status'', JStr ''failed''),
      (''progress'', JNum (1/2)), (''created_at'', JStr ''2024-01-01T00:00:00Z''),
      (''error'', JStr ''Embedding failed'')]"

definition spec_failed_payload :: json where
  "spec_failed_payload = JObj 6
     [(''id'', JStr ''job-2''), (''type'', JStr ''scrape''), (''status'', JStr ''failed''),
      (''progress'', JNum (1/2)), (''created_at'', JStr ''2024-01-01T00:00:00Z''),
      (''error'', JObj 7 [(''kind'', JStr ''EmbeddingError''), (''message'', JStr ''Embedding failed'')])]"

text \<open>
  A run used as an example below: two jobs, \<open>b\<close> pending and \<open>a\<close> running, and a
  backend whose answer for \<open>b\<close> takes longer than the interval, so that the interval
  fires a second time before the first callback has its first answer.
\<close>

definition job_b :: "string \<Rightarrow> json" where
  "job_b st = JObj 11 [(''id'', JStr ''b''), (''type'', JStr ''scrape''), (''status'', JStr st),
                       (''progress'', JNum 0), (''created_at'', JStr ''2024-01-01T00:01:00Z'')]"

definition job_a :: "string \<Rightarrow> json" where
  "job_a st = JObj 12 [(''id'', JStr ''a''), (''type'', JStr ''scrape''), (''status'', JStr st),
                       (''progress'', JNum 1), (''created_at'', JStr ''2024-01-01T00:00:00Z'')]"

definition answered :: "json \<Rightarrow> json fetched" where
  "answered v = Response True 200 (Inr v)"

definition overlapping_run :: "JobStatus_event list" where
  "overlapping_run =
     [Fire, Fire,
      Answer 0 (answered (job_b ''pending'')),
      Answer 0 (answered (job_a ''completed'')),
      Answer 1 (answered (job_b ''pending''))]"

definition first_callback :: callback where
  "first_callback = \<lparr> updatedJobs = [job_b ''pending'', job_a ''running''], hasUpdates = False,
      jobId = JStr ''b'', remaining = [JStr ''a''] \<rparr>"

text \<open>The same jobs and answers when the first callback ends before the second firing.\<close>

definition sequential_run :: "JobStatus_event list" where
  "sequential_run =
     [Fire,
      Answer 0 (answered (job_b ''pending'')),
      Answer 0 (answered (job_a ''completed'')),
      Fire,
      Answer 1 (answered (job_b ''pending''))]"

section \<open>The job orchestration engine\<close>

text \<open>
  Modelled from the spec: the backend (job store, orchestrator, pipeline and worker
  pool) is not among the sources; only its callers, the components above, are. The
  definitions of this section follow sections 3 and 4 of the specification.
\<close>

datatype kind = scrape | local_upload | chat_query | config_command

datatype status = pending | running | completed | failed

datatype error_kind = ValidationError | UnresolvableSourceError | ExtractionError
  | EmbeddingError | UpsertError | CancelledError

datatype source_hint = hint_auto | remote_crawl | advanced_crawl | hint_local

text \<open>
  Modelled from the spec: the submission input, a prompt with its source-type hint or
  a sequence of file references, and what makes it empty.
\<close>

datatype submission = Prompt string source_hint | Files "string list"

fun input_is_empty :: "submission \<Rightarrow> bool" where
  "input_is_empty (Prompt p h) = (p = [])"
| "input_is_empty (Files fs) = (fs = [])"

text \<open>
  Modelled from the spec: the structured error of a failed job, the payload of a
  completed one, and the job record of section 3. Identifiers and timestamps are
  natural numbers.
\<close>

record job_failure =
  failure_kind :: error_kind
  failure_message :: string

record job_outcome =
  collectionName :: string
  documentsProcessed :: nat

record JobRecord =
  jr_id :: nat
  jr_kind :: kind
  jr_status :: status
  jr_progress :: real
  jr_input :: submission
  jr_result :: "job_outcome option"
  jr_error :: "job_failure option"
  createdAt :: nat
  updatedAt :: nat

text \<open>
  Modelled from the spec: the orchestrator's state. \<open>store\<close> is the job store, a map
  from identifiers to records; \<open>next_id\<close> the next identifier to assign; \<open>clock\<close> the
  time; \<open>stages_done\<close> the number of stages the worker of a job has completed.
\<close>

record orchestrator =
  store :: "nat \<Rightarrow> JobRecord option"
  next_id :: nat
  clock :: nat
  stages_done :: "nat \<Rightarrow> nat"

definition orchestrator_start :: orchestrator where
  "orchestrator_start = \<lparr> store = (\<lambda>i. None), next_id = 0, clock = 0, stages_done = (\<lambda>i. 0) \<rparr>"

text \<open>
  Modelled from the spec: cumulative progress (section 4.2). \<open>ws\<close> are the weights of
  the stages of a pipeline, in order; after \<open>n\<close> stages the progress is the sum of the
  first \<open>n\<close> weights over the sum of all.
\<close>

definition progress_after :: "real list \<Rightarrow> nat \<Rightarrow> real" where
  "progress_after ws n = sum_list (take n ws) / sum_list ws"

definition well_weighted :: "(kind \<Rightarrow> real list) \<Rightarrow> bool" where
  "well_weighted W = (\<forall>k. (\<forall>w \<in> set (W k). 0 \<le> w) \<and> 0 < sum_list (W k))"

text \<open>
  Modelled from the spec: \<open>Submit\<close> (section 4.3). An empty input is a
  \<open>ValidationError\<close> and creates nothing; otherwise a job is created, pending with
  progress 0, and its identifier returned.
\<close>

definition Orchestrator_Submit ::
  "kind \<Rightarrow> submission \<Rightarrow> orchestrator \<Rightarrow> (error_kind + nat) \<times> orchestrator" where
  "Orchestrator_Submit k inp s =
     (if input_is_empty inp then (Inl ValidationError, s)
      else
        (Inr (next_id s),
         s\<lparr> store := (store s)(next_id s \<mapsto>
                 \<lparr> jr_id = next_id s, jr_kind = k, jr_status = pending, jr_progress = 0,
                   jr_input = inp, jr_result = None, jr_error = None,
                   createdAt = clock s, updatedAt = clock s \<rparr>),
            next_id := Suc (next_id s),
            clock := Suc (clock s),
            stages_done := (stages_done s)(next_id s := 0) \<rparr>))"

text \<open>
  Modelled from the spec: \<open>Query\<close> and \<open>List\<close> (sections 4.1 and 4.3). A query
  returns the record stored under the identifier, or not-found (\<open>None\<close>); the list is
  the most recent \<open>limit\<close> records, most recent first.
\<close>

definition Orchestrator_Query :: "orchestrator \<Rightarrow> nat \<Rightarrow> JobRecord option" where
  "Orchestrator_Query s i = store s i"

definition Orchestrator_List :: "orchestrator \<Rightarrow> nat \<Rightarrow> JobRecord list" where
  "Orchestrator_List s limit = take limit (List.map_filter (store s) (rev [0..<next_id s]))"

text \<open>
  Modelled from the spec: the state machine of a job (section 4.3). A worker picks a
  pending job up, which makes it running; each stage it finishes either fails, which
  makes the job failed with the stage's error and leaves the progress as it is, or
  succeeds, which moves the progress on and, after the last stage, makes the job
  completed with its result. Nothing happens to a job that is not in the state the
  step needs. The width of the worker pool and the order of its queue are not
  modelled: any pending job may be picked up.
\<close>

datatype stage_result = Succeeded job_outcome | Failed_with job_failure

definition worker_pickup :: "nat \<Rightarrow> orchestrator \<Rightarrow> orchestrator" where
  "worker_pickup i s =
     (case store s i of
        None \<Rightarrow> s
      | Some j \<Rightarrow>
          if jr_status j = pending
          then s\<lparr> store := (store s)(i \<mapsto> j\<lparr> jr_status := running, updatedAt := clock s \<rparr>),
                  clock := Suc (clock s) \<rparr>
          else s)"

definition stage_finished ::
  "(kind \<Rightarrow> real list) \<Rightarrow> nat \<Rightarrow> stage_result \<Rightarrow> orchestrator \<Rightarrow> orchestrator" where
  "stage_finished W i r s =
     (case store s i of
        None \<Rightarrow> s
      | Some j \<Rightarrow>
          if jr_status j \<noteq> running then s
          else
            (case r of
               Failed_with e \<Rightarrow>
                 s\<lparr> store := (store s)(i \<mapsto>
                        j\<lparr> jr_status := failed, jr_error := Some e, updatedAt := clock s \<rparr>),
                    clock := Suc (clock s) \<rparr>
             | Succeeded out \<Rightarrow>
                 let n = Suc (stages_done s i);
                     p = progress_after (W (jr_kind j)) n
                 in if n < length (W (jr_kind j))
                    then s\<lparr> store := (store s)(i \<mapsto>
                                j\<lparr> jr_progress := p, updatedAt := clock s \<rparr>),
                            clock := Suc (clock s),
                            stages_done := (stages_done s)(i := n) \<rparr>
                    else s\<lparr> store := (store s)(i \<mapsto>
                                j\<lparr> jr_status := completed, jr_progress := p,
                                   jr_result := Some out, updatedAt := clock s \<rparr>),
                            clock := Suc (clock s),
                            stages_done := (stages_done s)(i := n) \<rparr>))"

text \<open>
  Modelled from the spec: what can happen to the orchestrator, one step of it, and a
  run from a state. A step returns the new state and the identifiers \<open>Submit\<close>
  returned in it.
\<close>

datatype event = Submitted kind submission | PickedUp nat | StageFinished nat stage_result

fun orchestrator_step ::
  "(kind \<Rightarrow> real list) \<Rightarrow> event \<Rightarrow> orchestrator \<Rightarrow> orchestrator \<times> nat list" where
  "orchestrator_step W (Submitted k inp) s =
     (case Orchestrator_Submit k inp s of
        (Inl e, s1) \<Rightarrow> (s1, [])
      | (Inr i, s1) \<Rightarrow> (s1, [i]))"
| "orchestrator_step W (PickedUp i) s = (worker_pickup i s, [])"
| "orchestrator_step W (StageFinished i r) s = (stage_finished W i r s, [])"

fun orchestrator_run ::
  "(kind \<Rightarrow> real list) \<Rightarrow> event list \<Rightarrow> orchestrator \<Rightarrow> orchestrator \<times> nat list" where
  "orchestrator_run W [] s = (s, [])"
| "orchestrator_run W (e # es) s =
     (case orchestrator_step W e s of
        (s1, ids1) \<Rightarrow>
          (case orchestrator_run W es s1 of (s2, ids2) \<Rightarrow> (s2, ids1 @ ids2)))"

definition reached :: "(kind \<Rightarrow> real list) \<Rightarrow> event list \<Rightarrow> orchestrator" where
  "reached W es = fst (orchestrator_run W es orchestrator_start)"

definition returned_ids :: "(kind \<Rightarrow> real list) \<Rightarrow> event list \<Rightarrow> nat list" where
  "returned_ids W es = snd (orchestrator_run W es orchestrator_start)"

text \<open>
  Modelled from the spec: pipelines with the default equal split. A scrape has the
  four stages, a local upload skips the source resolver; the specification names no
  stages for the two chat kinds, which are given one here.
\<close>

fun equal_split :: "kind \<Rightarrow> real list" where
  "equal_split scrape = [1, 1, 1, 1]"
| "equal_split local_upload = [1, 1, 1]"
| "equal_split chat_query = [1]"
| "equal_split config_command = [1]"

text \<open>
  What holds of every record of a store the orchestrator can reach: the fields that
  go with its status, the identifiers in use, and the progress that goes with the
  stages done.
\<close>

definition fields_ok :: "orchestrator \<Rightarrow> bool" where
  "fields_ok s = (\<forall>i j. store s i = Some j \<longrightarrow>
      (jr_result j \<noteq> None \<longleftrightarrow> jr_status j = completed)
    \<and> (jr_error j \<noteq> None \<longleftrightarrow> jr_status j = failed))"

definition ids_ok :: "orchestrator \<Rightarrow> nat list \<Rightarrow> bool" where
  "ids_ok s ids = (set ids = {i. i < next_id s} \<and> (\<forall>i. store s i \<noteq> None \<longrightarrow> i < next_id s))"

definition job_ok :: "(kind \<Rightarrow> real list) \<Rightarrow> nat \<Rightarrow> nat \<Rightarrow> nat \<Rightarrow> JobRecord \<Rightarrow> bool" where
  "job_ok W i n d j =
     (i < n
      \<and> (jr_status j = pending \<longrightarrow> jr_progress j = 0 \<and> d = 0)
      \<and> (jr_status j = running \<longrightarrow> jr_progress j = progress_after (W (jr_kind j)) d)
      \<and> (jr_status j = completed \<longrightarrow> jr_progress j = 1)
      \<and> 0 \<le> jr_progress j \<and> jr_progress j \<le> 1)"

definition progress_ok :: "(kind \<Rightarrow> real list) \<Rightarrow> orchestrator \<Rightarrow> bool" where
  "progress_ok W s =
     (\<forall>i j. store s i = Some j \<longrightarrow> job_ok W i (next_id s) (stages_done s i) j)"

text \<open>
  A run used as an example below: a scrape is submitted, a submission with the empty
  prompt is refused, the scrape is picked up and two of its four stages succeed.
\<close>

definition ten_documents :: job_outcome where
  "ten_documents = \<lparr> collectionName = ''Articles'', documentsProcessed = 10 \<rparr>"

definition example_events :: "event list" where
  "example_events =
     [Submitted scrape (Prompt ''Scrape articles from https://example.com/blog'' hint_auto),
      Submitted scrape (Prompt [] hint_auto),
      PickedUp 0,
      StageFinished 0 (Succeeded ten_documents),
      StageFinished 0 (Succeeded ten_documents)]"

definition example_record :: JobRecord where
  "example_record =
     \<lparr> jr_id = 0, jr_kind = scrape, jr_status = running, jr_progress = 1/2,
       jr_input = Prompt ''Scrape articles from https://example.com/blog'' hint_auto,
       jr_result = None, jr_error = None, createdAt = 0, updatedAt = 3 \<rparr>"

section \<open>Properties of the job list\<close>

text \<open>
  C9. For every list of jobs given to the JobStatus display, the cards rendered are
  those of the first five jobs, in order, so there are never more than five; the
  "View all" control appears exactly when the list has more than five jobs, and then
  it shows the total number of jobs.
\<close>

theorem render_JobStatus_first_five:
  "rendered_cards (render_JobStatus js) = map render_job (take 5 js)
   \<and> length (rendered_cards (render_JobStatus js)) = min 5 (length js)
   \<and> length (rendered_cards (render_JobStatus js)) \<le> 5
   \<and> view_all_button (render_JobStatus js)
       = (if 5 < length js then Some (length js) else None)"
  by (simp add: render_JobStatus_def slice0_def min.commute)

section \<open>Properties of the chat\<close>

lemma trim_example:
  "trim ''Show me my current collections'' = ''Show me my current collections''"
  by (simp add: trim_def is_space_def)

text \<open>
  C10. For every chat request sent by the ChatInterface, the \<open>context_collection\<close>
  field of the body is null whenever the chat type is config; in data mode, and only
  there, it is the collection selected by the user (the empty string when all
  collections are meant).
\<close>

theorem chat_context_collection:
  "\<forall>r \<in> set (snd (ChatInterface_handleSubmit type now1 fetch now2 st)).
     chat_type r = chat_mode_value type
     \<and> (type = Config_chat \<longrightarrow> context_collection r = None)
     \<and> (type = Data_chat \<longrightarrow> context_collection r = Some (selectedCollection st))
     \<and> (context_collection r \<noteq> None \<longrightarrow> type = Data_chat)"
  by (cases type) (simp_all add: ChatInterface_handleSubmit_def Let_def)

theorem chat_context_collection_witness:
  "snd (ChatInterface_handleSubmit Config_chat 0 no_backend 0 chat_example)
     = [\<lparr> message = ''Show me my current collections'', context_collection = None,
          chat_type = ''config'' \<rparr>]
   \<and> context_collection
        (hd (snd (ChatInterface_handleSubmit Config_chat 0 no_backend 0 chat_example))) = None"
  using chat_context_collection [of Config_chat 0 no_backend 0 chat_example]
  by (simp add: ChatInterface_handleSubmit_def Let_def chat_example_def trim_example)

section \<open>Properties of the scrape form\<close>

text \<open>
  The form sends nothing for a prompt that is empty or white space only: the handler
  returns at once, hands no job id to \<open>onJobCreated\<close> and leaves the form as it was.
  Every request that is sent carries a prompt that is not empty.
\<close>

lemma blank_prompt_not_submitted:
  "(trim (prompt st) = [] \<longrightarrow> ScrapeForm_handleSubmit fetch st = (st, [], []))
   \<and> (\<forall>r \<in> set (fst (snd (ScrapeForm_handleSubmit fetch st))). req_prompt r \<noteq> [])"
  by (auto simp: ScrapeForm_handleSubmit_def Let_def split: sum.splits thrown.splits)

lemma option_value_in: "option_value opt \<in> sourceType_values"
  by (cases opt) (simp_all add: sourceType_values_def)

lemma handleSubmit_sourceType:
  assumes "ScrapeForm_handleSubmit fetch st = (st1, sent, created)"
  shows "sourceType st1 = sourceType st" and "\<forall>r \<in> set sent. source_type r = sourceType st"
  using assms
  by (auto simp: ScrapeForm_handleSubmit_def Let_def split: if_splits sum.splits thrown.splits)

lemma step_sourceType:
  assumes "ScrapeForm_step e st = (st1, sent, created)"
    and "sourceType st \<in> sourceType_values"
  shows "sourceType st1 \<in> sourceType_values
         \<and> (\<forall>r \<in> set sent. source_type r \<in> sourceType_values)"
proof (cases e)
  case (ChangePrompt typed)
  with assms show ?thesis by auto
next
  case (ChangeSourceType opt)
  with assms show ?thesis by (auto simp: option_value_in)
next
  case (Submit fetch)
  with assms handleSubmit_sourceType [of fetch st st1 sent created] show ?thesis by auto
qed

lemma run_sourceType:
  assumes "ScrapeForm_run es st = (st1, sent, created)"
    and "sourceType st \<in> sourceType_values"
  shows "\<forall>r \<in> set sent. source_type r \<in> sourceType_values"
  using assms
proof (induction es arbitrary: st st1 sent created)
  case Nil
  then show ?case by simp
next
  case (Cons e es)
  obtain sa senta createda where a: "ScrapeForm_step e st = (sa, senta, createda)"
    by (metis prod_cases3)
  obtain sb sentb createdb where b: "ScrapeForm_run es sa = (sb, sentb, createdb)"
    by (metis prod_cases3)
  from Cons.prems(1) a b have sent: "sent = senta @ sentb" by simp
  from step_sourceType [OF a Cons.prems(2)]
  have sa: "sourceType sa \<in> sourceType_values"
    and senta: "\<forall>r \<in> set senta. source_type r \<in> sourceType_values" by auto
  from Cons.IH [OF b sa] senta sent show ?case by auto
qed

lemma trim_x: "trim ''x'' = ''x''"
  by (simp add: trim_def is_space_def)

lemma chosen_is_sent:
  "requests_sent [ChangePrompt ''x'', ChangeSourceType opt, Submit no_backend]
     = [\<lparr> req_prompt = ''x'', source_type = option_value opt \<rparr>]"
  by (simp add: requests_sent_def ScrapeForm_initial_def ScrapeForm_handleSubmit_def trim_x
      settle_def no_backend_def Let_def)

text \<open>
  C6, as the claim states it: the hint transmitted is one of auto, remote-crawl,
  advanced-crawl, local. Choosing the second option of the select and submitting
  transmits \<open>firecrawl\<close>, which is none of them.
\<close>

theorem source_type_enumeration_counterexample:
  "requests_sent [ChangePrompt ''x'', ChangeSourceType Firecrawl, Submit no_backend]
     = [\<lparr> req_prompt = ''x'', source_type = ''firecrawl'' \<rparr>]
   \<and> ''firecrawl'' \<notin> spec_sourceTypeHint"
  using chosen_is_sent [of Firecrawl] by (simp add: spec_sourceTypeHint_def)

text \<open>
  C6, amended. For every run of the scrape form, the \<open>source_type\<close> of every request
  sent is one of auto, firecrawl, apify, local, and each of the four can be sent.
\<close>

theorem source_type_enumeration:
  "(\<forall>r \<in> set (requests_sent es). source_type r \<in> {''auto'', ''firecrawl'', ''apify'', ''local''})
   \<and> (\<forall>v \<in> {''auto'', ''firecrawl'', ''apify'', ''local''}.
         \<exists>es'. \<exists>r \<in> set (requests_sent es'). source_type r = v)"
proof
  obtain st1 sent created where r: "ScrapeForm_run es ScrapeForm_initial = (st1, sent, created)"
    by (metis prod_cases3)
  have "sourceType ScrapeForm_initial \<in> sourceType_values"
    by (simp add: ScrapeForm_initial_def sourceType_values_def)
  from run_sourceType [OF r this] r
  show "\<forall>r \<in> set (requests_sent es). source_type r \<in> {''auto'', ''firecrawl'', ''apify'', ''local''}"
    by (simp add: requests_sent_def sourceType_values_def)
next
  have "\<exists>es'. \<exists>r \<in> set (requests_sent es'). source_type r = option_value opt" for opt
    using chosen_is_sent [of opt]
    by (metis list.set_intros(1) scrape_request.select_convs(2))
  from this [of Auto_detect] this [of Firecrawl] this [of Apify] this [of Local_files]
  show "\<forall>v \<in> {''auto'', ''firecrawl'', ''apify'', ''local''}.
         \<exists>es'. \<exists>r \<in> set (requests_sent es'). source_type r = v"
    by simp
qed

theorem source_type_enumeration_witness:
  "requests_sent [ChangePrompt ''x'', ChangeSourceType Apify, Submit no_backend]
     = [\<lparr> req_prompt = ''x'', source_type = ''apify'' \<rparr>]
   \<and> source_type (hd (requests_sent [ChangePrompt ''x'', ChangeSourceType Apify, Submit no_backend]))
        \<in> {''auto'', ''firecrawl'', ''apify'', ''local''}"
  using source_type_enumeration [of "[ChangePrompt ''x'', ChangeSourceType Apify, Submit no_backend]"]
    chosen_is_sent [of Apify]
  by simp

section \<open>Properties of the status payload\<close>










lemma render_failed_payload:
  "render_payload failed_payload =
     Inr \<lparr> shown_key = JStr ''job-2'', shown_icon = CrossMark,
           shown_color = ''text-red-600 bg-red-100'',
           shown_status = [TextOf ''failed''],
           shown_time = JStr ''2024-01-01T00:00:00Z'',
           shown_prompt = Hidden, shown_progress = None, shown_results = Hidden,
           shown_error = Shown [TextOf ''Embedding failed''] \<rparr>"
  by (simp add: render_payload_def failed_payload_def nullish_def and_then_def guarded_def
      status_icon_of_def status_color_of_def getStatusIcon_def getStatusColor_def)

lemma render_spec_failed_payload: "render_payload spec_failed_payload = Inl ObjectChild"
  by (simp add: render_payload_def spec_failed_payload_def nullish_def and_then_def guarded_def)

text \<open>
  C4, as the claim states it: the error of a failed job is a structured value with
  exactly a kind and a message, which clients can render. The failed job with such an
  error is not rendered at all: the component throws on it. The failed job with a
  bare string has its error shown.
\<close>

theorem structured_error_counterexample:
  "property spec_failed_payload ''status'' = JStr ''failed''
   \<and> has_shape (property spec_failed_payload ''error'') spec_error_fields
   \<and> render_payload spec_failed_payload = Inl ObjectChild
   \<and> \<not> render_succeeds [spec_failed_payload]
   \<and> property failed_payload ''error'' = JStr ''Embedding failed''
   \<and> map_sum id shown_error (render_payload failed_payload)
        = Inr (Shown [TextOf ''Embedding failed''])"
  by (simp add: render_failed_payload render_spec_failed_payload render_succeeds_def)
    (simp add: failed_payload_def spec_failed_payload_def has_shape_def spec_error_fields_def)

lemma render_failed_string:
  assumes "property job ''status'' = JStr ''failed''"
    and "child (property job ''prompt'') = Inr pr"
    and "property job ''error'' = JStr e"
  shows "\<exists>c. render_payload job = Inr c
           \<and> shown_error c = (if e = [] then Hidden else Shown [TextOf e])"
proof -
  from assms(1) have "\<not> nullish job" by (auto simp: nullish_def)
  with assms show ?thesis
    by (simp add: render_payload_def and_then_def guarded_def del: property.simps)
qed

lemma child_error:
  "child v \<noteq> Inl TypeError" and "children vs \<noteq> Inl TypeError"
  by (induction v and vs rule: child_children.induct) (auto split: sum.splits)

lemma render_failed_object:
  assumes "property job ''status'' = JStr ''failed''"
    and "property job ''error'' = JObj i fs"
  shows "render_payload job = Inl ObjectChild"
proof -
  from assms(1) have n: "\<not> nullish job" by (auto simp: nullish_def)
  show ?thesis
  proof (cases "guarded (property job ''prompt'') (child (property job ''prompt''))")
    case (Inl e)
    then have "e = ObjectChild"
      using child_error(1) [of "property job ''prompt''"]
      by (cases e) (auto simp: guarded_def and_then_def split: if_splits sum.splits)
    with Inl n assms show ?thesis
      by (simp add: render_payload_def and_then_def guarded_def del: property.simps)
  next
    case (Inr sl)
    with n assms show ?thesis
      by (simp add: render_payload_def and_then_def guarded_def del: property.simps)
  qed
qed

text \<open>
  C4, amended. For every failed job, the error the client is written for is a bare
  string, as \<open>interface Job\<close> declares it: a string that is not empty is shown as it is
  after "Error:" (when the rest of the card can be rendered), and a structured value,
  such as one with a kind and a message, is not rendered: the component throws on it.
\<close>

theorem error_is_bare_string:
  assumes "property job ''status'' = JStr ''failed''"
  shows "declared_type Job_interface ''error'' = Some TString
     \<and> (child (property job ''prompt'') = Inr pr \<and> property job ''error'' = JStr e \<and> e \<noteq> []
          \<longrightarrow> (\<exists>c. render_payload job = Inr c \<and> shown_error c = Shown [TextOf e]))
     \<and> (property job ''error'' = JObj i fs \<longrightarrow> render_payload job = Inl ObjectChild)"
  using render_failed_string [OF assms, of pr e] render_failed_object [OF assms, of i fs]
  by (auto simp: Job_interface_def)

theorem error_is_bare_string_witness:
  "property failed_payload ''status'' = JStr ''failed''
   \<and> child (property failed_payload ''prompt'') = Inr []
   \<and> property failed_payload ''error'' = JStr ''Embedding failed''
   \<and> (\<exists>c. render_payload failed_payload = Inr c
          \<and> shown_error c = Shown [TextOf ''Embedding failed''])"
proof -
  have s: "property failed_payload ''status'' = JStr ''failed''"
    by (simp add: failed_payload_def)
  have p: "child (property failed_payload ''prompt'') = Inr []"
    by (simp add: failed_payload_def)
  have e: "property failed_payload ''error'' = JStr ''Embedding failed''"
    by (simp add: failed_payload_def)
  from error_is_bare_string [OF s, of "[]" "''Embedding failed''"] s p e
  show ?thesis by simp
qed

text \<open>
  On a job of the typed model, taken as the value it is at run time, the card is the
  one \<open>render_job\<close> gives.
\<close>

lemma property_Job_value:
  "property (Job_value i job) ''id'' = JStr (job_id job)"
  "property (Job_value i job) ''status'' = JStr (job_status job)"
  "property (Job_value i job) ''created_at'' = JStr (job_created_at job)"
  "property (Job_value i job) ''progress'' = JNum (job_progress job)"
  "property (Job_value i job) ''prompt'' = from_option JStr (job_prompt job)"
  "property (Job_value i job) ''error'' = from_option JStr (job_error job)"
  "property (Job_value i job) ''result'' = from_option (Job_result_value (Suc i)) (job_result job)"
  by (simp_all add: Job_value_def optional_def from_option_def Job_result_value_def
      split: option.splits)

lemma property_Job_result_value:
  "property (Job_result_value i r) ''collection_name'' = from_option JStr (collection_name r)"
  "property (Job_result_value i r) ''documents_processed''
     = from_option JNum (documents_processed r)"
  by (simp_all add: Job_result_value_def optional_def from_option_def split: option.splits)

lemma child_from_option:
  "child (from_option JStr s) = Inr (text_pieces s)"
  "child (from_option JNum x) = Inr (number_pieces x)"
  by (simp_all add: from_option_def text_pieces_def number_pieces_def split: option.splits)

lemma from_option_simps:
  "from_option f None = JUndefined" "from_option f (Some x) = f x"
  by (simp_all add: from_option_def)

lemma truthy_Job_result_value: "truthy_value (Job_result_value i r)"
  by (simp add: Job_result_value_def)

lemma truthy_from_option: "truthy_value (from_option JStr s) = truthy s"
  by (simp add: from_option_def truthy_def split: option.splits)

lemma render_payload_Job_value:
  "render_payload (Job_value i job) =
     Inr \<lparr> shown_key = JStr (job_id job),
           shown_icon = card_icon (render_job job),
           shown_color = card_color (render_job job),
           shown_status = text_pieces (Some (card_status (render_job job))),
           shown_time = JStr (card_time (render_job job)),
           shown_prompt =
             (case card_prompt (render_job job) of None \<Rightarrow> Hidden | Some p \<Rightarrow> Shown [TextOf p]),
           shown_progress =
             (case card_progress (render_job job) of
                None \<Rightarrow> None | Some w \<Rightarrow> Some (JNum (job_progress job))),
           shown_results =
             (case card_results (render_job job) of
                None \<Rightarrow> Hidden
              | Some (c, d) \<Rightarrow> Shown (text_pieces c, number_pieces d)),
           shown_error =
             (case card_error (render_job job) of None \<Rightarrow> Hidden | Some e \<Rightarrow> Shown [TextOf e]) \<rparr>"
proof -
  have n: "\<not> nullish (Job_value i job)" by (simp add: nullish_def Job_value_def)
  have r: "guarded (from_option (Job_result_value (Suc i)) (job_result job))
             (and_then (child (property (from_option (Job_result_value (Suc i)) (job_result job))
                                ''collection_name''))
                (\<lambda>collection.
                   and_then (child (property (from_option (Job_result_value (Suc i))
                                       (job_result job)) ''documents_processed''))
                     (\<lambda>documents. Inr (collection, documents))))
           = Inr (case job_result job of
                    None \<Rightarrow> Hidden
                  | Some x \<Rightarrow> Shown (text_pieces (collection_name x),
                                      number_pieces (documents_processed x)))"
    by (cases "job_result job")
      (simp_all add: from_option_simps guarded_def and_then_def property_Job_result_value
        child_from_option truthy_Job_result_value del: property.simps)
  have p: "guarded (from_option JStr (job_prompt job)) (child (from_option JStr (job_prompt job)))
           = Inr (if truthy (job_prompt job) then Shown [TextOf (the (job_prompt job))] else Hidden)"
    by (cases "job_prompt job")
      (simp_all add: guarded_def and_then_def from_option_def truthy_def)
  have e: "guarded (from_option JStr (job_error job)) (child (from_option JStr (job_error job)))
           = Inr (if truthy (job_error job) then Shown [TextOf (the (job_error job))] else Hidden)"
    by (cases "job_error job")
      (simp_all add: guarded_def and_then_def from_option_def truthy_def)
  show ?thesis
    unfolding render_payload_def property_Job_value r p e
    using n
    by (auto simp: and_then_def render_job_def status_icon_of_def status_color_of_def
        text_pieces_def truthy_def split: option.splits)
qed

section \<open>Properties of the polling\<close>

lemma render_job_b: "\<not> isl (render_payload (job_b st))"
  by (simp add: render_payload_def job_b_def nullish_def and_then_def guarded_def)

lemma render_job_a: "\<not> isl (render_payload (job_a st))"
  by (simp add: render_payload_def job_a_def nullish_def and_then_def guarded_def)

lemma job_b_simps:
  "property (job_b st) ''id'' = JStr ''b''" "property (job_b st) ''status'' = JStr st"
  "\<not> nullish (job_b st)"
  by (simp_all add: job_b_def nullish_def)

lemma job_a_simps:
  "property (job_a st) ''id'' = JStr ''a''" "property (job_a st) ''status'' = JStr st"
  "\<not> nullish (job_a st)"
  by (simp_all add: job_a_def nullish_def)

lemma find_b: "findIndex_id (JStr ''b'') [job_b x, job_a y] = Inr (Some 0)"
  by (simp add: job_b_simps)

lemma find_a: "findIndex_id (JStr ''a'') [job_b x, job_a y] = Inr (Some 1)"
  by (simp add: job_b_simps job_a_simps)

lemma tracked_two:
  "tracked_ids [job_b ''pending'', job_a ''running''] = Inr [JStr ''b'', JStr ''a'']"
  "tracked_ids [job_b ''pending'', job_a ''completed''] = Inr [JStr ''b'']"
  by (simp_all add: job_b_simps job_a_simps)

lemma new_Set_two:
  "new_Set [JStr ''b'', JStr ''a''] = [JStr ''b'', JStr ''a'']" "new_Set [JStr ''b''] = [JStr ''b'']"
  by (simp_all add: new_Set_def Set_add_def Set_has_def)

lemma renders_two: "render_succeeds [job_b x, job_a y]"
  by (simp add: render_succeeds_def render_job_a render_job_b)

lemma mount_two:
  "JobStatus_mount [job_b ''pending'', job_a ''running'']
     = \<lparr> jobs = [job_b ''pending'', job_a ''running''],
         pollingJobs = [JStr ''b'', JStr ''a''],
         callbacks = [], history = [], unmounted = False \<rparr>"
  by (simp add: JobStatus_mount_def setJobs_def renders_two track_running_def tracked_two
      new_Set_two del: tracked_ids.simps)

lemma after_two_firings:
  "JobStatus_run [Fire, Fire] (JobStatus_mount [job_b ''pending'', job_a ''running''])
     = \<lparr> jobs = [job_b ''pending'', job_a ''running''],
         pollingJobs = [JStr ''b'', JStr ''a''],
         callbacks = [Some first_callback, Some first_callback],
         history = [Requested (JStr ''b''), Requested (JStr ''b'')], unmounted = False \<rparr>"
  by (simp add: JobStatus_run_def mount_two fire_def first_callback_def)

lemma first_answer:
  "on_answer (answered (job_b ''pending'')) first_callback
     = (first_callback\<lparr> hasUpdates := True \<rparr>, False)"
  by (simp add: on_answer_def answered_def first_callback_def find_b job_b_simps
      del: findIndex_id.simps)

lemma second_answer:
  "on_answer (answered (job_a ''completed''))
      (first_callback\<lparr> hasUpdates := True, jobId := JStr ''a'', remaining := [] \<rparr>)
     = (\<lparr> updatedJobs = [job_b ''pending'', job_a ''completed''], hasUpdates = True,
          jobId = JStr ''a'', remaining = [] \<rparr>, True)"
  by (simp add: on_answer_def answered_def first_callback_def find_a job_a_simps
      del: findIndex_id.simps)

lemma after_first_answer:
  "JobStatus_run [Fire, Fire, Answer 0 (answered (job_b ''pending''))]
      (JobStatus_mount [job_b ''pending'', job_a ''running''])
     = \<lparr> jobs = [job_b ''pending'', job_a ''running''],
         pollingJobs = [JStr ''b'', JStr ''a''],
         callbacks = [Some (first_callback\<lparr> hasUpdates := True, jobId := JStr ''a'',
                                            remaining := [] \<rparr>),
                      Some first_callback],
         history = [Requested (JStr ''b''), Requested (JStr ''b''),
                    Answered (JStr ''b'') (answered (job_b ''pending'')),
                    Requested (JStr ''a'')],
         unmounted = False \<rparr>"
proof -
  have "JobStatus_run [Fire, Fire, Answer 0 (answered (job_b ''pending''))]
      (JobStatus_mount [job_b ''pending'', job_a ''running''])
    = JobStatus_step (Answer 0 (answered (job_b ''pending'')))
        (JobStatus_run [Fire, Fire] (JobStatus_mount [job_b ''pending'', job_a ''running'']))"
    by (simp add: JobStatus_run_def)
  also have "\<dots> = resume 0 first_callback (answered (job_b ''pending''))
        (JobStatus_run [Fire, Fire] (JobStatus_mount [job_b ''pending'', job_a ''running'']))"
    by (simp add: after_two_firings)
  finally show ?thesis
    by (simp add: resume_def first_answer after_two_firings)
      (simp add: first_callback_def)
qed

lemma delete_a: "Set_delete [JStr ''b'', JStr ''a''] (JStr ''a'') = [JStr ''b'']"
  by (simp add: Set_delete_def)

lemma after_terminal_answer:
  "JobStatus_run (take 4 overlapping_run) (JobStatus_mount [job_b ''pending'', job_a ''running''])
     = \<lparr> jobs = [job_b ''pending'', job_a ''completed''],
         pollingJobs = [JStr ''b''],
         callbacks = [None, Some first_callback],
         history = [Requested (JStr ''b''), Requested (JStr ''b''),
                    Answered (JStr ''b'') (answered (job_b ''pending'')),
                    Requested (JStr ''a''),
                    Answered (JStr ''a'') (answered (job_a ''completed''))],
         unmounted = False \<rparr>"
proof -
  let ?s3 = "JobStatus_run [Fire, Fire, Answer 0 (answered (job_b ''pending''))]
      (JobStatus_mount [job_b ''pending'', job_a ''running''])"
  have "JobStatus_run (take 4 overlapping_run)
          (JobStatus_mount [job_b ''pending'', job_a ''running''])
    = JobStatus_step (Answer 0 (answered (job_a ''completed''))) ?s3"
    by (simp add: JobStatus_run_def overlapping_run_def)
  also have "\<dots> = resume 0
        (first_callback\<lparr> hasUpdates := True, jobId := JStr ''a'', remaining := [] \<rparr>)
        (answered (job_a ''completed'')) ?s3"
    by (simp add: after_first_answer)
  finally show ?thesis
    by (simp add: resume_def second_answer after_first_answer delete_from_polling_def delete_a
        setJobs_def renders_two track_running_def tracked_two new_Set_two
        del: tracked_ids.simps)
qed

lemma after_overlapping_run:
  "JobStatus_run overlapping_run (JobStatus_mount [job_b ''pending'', job_a ''running''])
     = \<lparr> jobs = [job_b ''pending'', job_a ''completed''],
         pollingJobs = [JStr ''b''],
         callbacks = [None, Some (first_callback\<lparr> hasUpdates := True, jobId := JStr ''a'',
                                                  remaining := [] \<rparr>)],
         history = [Requested (JStr ''b''), Requested (JStr ''b''),
                    Answered (JStr ''b'') (answered (job_b ''pending'')),
                    Requested (JStr ''a''),
                    Answered (JStr ''a'') (answered (job_a ''completed'')),
                    Answered (JStr ''b'') (answered (job_b ''pending'')),
                    Requested (JStr ''a'')],
         unmounted = False \<rparr>"
proof -
  let ?s4 = "JobStatus_run (take 4 overlapping_run)
      (JobStatus_mount [job_b ''pending'', job_a ''running''])"
  have "JobStatus_run overlapping_run (JobStatus_mount [job_b ''pending'', job_a ''running''])
    = JobStatus_step (Answer 1 (answered (job_b ''pending''))) ?s4"
    by (simp add: JobStatus_run_def overlapping_run_def)
  also have "\<dots> = resume 1 first_callback (answered (job_b ''pending'')) ?s4"
    by (simp add: after_terminal_answer)
  finally show ?thesis
    by (simp add: resume_def first_answer after_terminal_answer)
      (simp add: first_callback_def)
qed

text \<open>
  C7. The claim is that once a status query for a job returns a terminal status, the
  job is removed from the polling set and never polled again. The code removes it
  from the set, but a callback that is already under way iterates the set of the
  render it was started in: with the jobs \<open>b\<close> (pending) and \<open>a\<close> (running) and an
  answer for \<open>b\<close> that takes longer than the interval, the interval fires twice before
  the first answer; the first callback then gets \<open>a\<close> completed and \<open>a\<close> leaves the
  polling set, and the second callback, once it has its answer for \<open>b\<close>, fetches \<open>a\<close>
  again.
\<close>

theorem polled_again_after_terminal:
  "pollingJobs (JobStatus_mount [job_b ''pending'', job_a ''running'']) = [JStr ''b'', JStr ''a'']
   \<and> pollingJobs (JobStatus_run (take 4 overlapping_run)
         (JobStatus_mount [job_b ''pending'', job_a ''running''])) = [JStr ''b'']
   \<and> history (JobStatus_run overlapping_run
         (JobStatus_mount [job_b ''pending'', job_a ''running'']))
       = [Requested (JStr ''b''), Requested (JStr ''b''),
          Answered (JStr ''b'') (answered (job_b ''pending'')),
          Requested (JStr ''a''),
          Answered (JStr ''a'') (answered (job_a ''completed'')),
          Answered (JStr ''b'') (answered (job_b ''pending'')),
          Requested (JStr ''a'')]"
  unfolding after_terminal_answer after_overlapping_run
  by (simp add: mount_two)

text \<open>
  When the first callback has ended before the interval fires again, the second
  callback is started on the new polling set and does not fetch \<open>a\<close>.
\<close>

lemma run_snoc: "JobStatus_run (es @ [e]) st = JobStatus_step e (JobStatus_run es st)"
  by (simp add: JobStatus_run_def)

lemma sequential_1:
  "JobStatus_run [Fire] (JobStatus_mount [job_b ''pending'', job_a ''running''])
     = \<lparr> jobs = [job_b ''pending'', job_a ''running''],
         pollingJobs = [JStr ''b'', JStr ''a''],
         callbacks = [Some first_callback],
         history = [Requested (JStr ''b'')], unmounted = False \<rparr>"
  by (simp add: JobStatus_run_def mount_two fire_def first_callback_def)

lemma sequential_2:
  "JobStatus_run (take 2 sequential_run) (JobStatus_mount [job_b ''pending'', job_a ''running''])
     = \<lparr> jobs = [job_b ''pending'', job_a ''running''],
         pollingJobs = [JStr ''b'', JStr ''a''],
         callbacks = [Some (first_callback\<lparr> hasUpdates := True, jobId := JStr ''a'',
                                            remaining := [] \<rparr>)],
         history = [Requested (JStr ''b''),
                    Answered (JStr ''b'') (answered (job_b ''pending'')),
                    Requested (JStr ''a'')],
         unmounted = False \<rparr>"
proof -
  have "JobStatus_run (take 2 sequential_run)
          (JobStatus_mount [job_b ''pending'', job_a ''running''])
    = JobStatus_step (Answer 0 (answered (job_b ''pending'')))
        (JobStatus_run [Fire] (JobStatus_mount [job_b ''pending'', job_a ''running'']))"
    using run_snoc [of "[Fire]"] by (simp add: sequential_run_def)
  also have "\<dots> = resume 0 first_callback (answered (job_b ''pending''))
        (JobStatus_run [Fire] (JobStatus_mount [job_b ''pending'', job_a ''running'']))"
    by (simp add: sequential_1)
  finally show ?thesis
    by (simp add: resume_def first_answer sequential_1) (simp add: first_callback_def)
qed

lemma sequential_3:
  "JobStatus_run (take 3 sequential_run) (JobStatus_mount [job_b ''pending'', job_a ''running''])
     = \<lparr> jobs = [job_b ''pending'', job_a ''completed''],
         pollingJobs = [JStr ''b''],
         callbacks = [None],
         history = [Requested (JStr ''b''),
                    Answered (JStr ''b'') (answered (job_b ''pending'')),
                    Requested (JStr ''a''),
                    Answered (JStr ''a'') (answered (job_a ''completed''))],
         unmounted = False \<rparr>"
proof -
  let ?s2 = "JobStatus_run (take 2 sequential_run)
      (JobStatus_mount [job_b ''pending'', job_a ''running''])"
  have "JobStatus_run (take 3 sequential_run)
          (JobStatus_mount [job_b ''pending'', job_a ''running''])
    = JobStatus_step (Answer 0 (answered (job_a ''completed''))) ?s2"
    using run_snoc [of "take 2 sequential_run"] by (simp add: sequential_run_def)
  also have "\<dots> = resume 0
        (first_callback\<lparr> hasUpdates := True, jobId := JStr ''a'', remaining := [] \<rparr>)
        (answered (job_a ''completed'')) ?s2"
    by (simp add: sequential_2)
  finally show ?thesis
    by (simp add: resume_def second_answer sequential_2 delete_from_polling_def delete_a
        setJobs_def renders_two track_running_def tracked_two new_Set_two
        del: tracked_ids.simps)
qed

lemma third_answer:
  "on_answer (answered (job_b ''pending''))
      \<lparr> updatedJobs = [job_b ''pending'', job_a ''completed''], hasUpdates = False,
        jobId = JStr ''b'', remaining = [] \<rparr>
     = (\<lparr> updatedJobs = [job_b ''pending'', job_a ''completed''], hasUpdates = True,
          jobId = JStr ''b'', remaining = [] \<rparr>, False)"
  by (simp add: on_answer_def answered_def find_b job_b_simps del: findIndex_id.simps)

lemma not_polled_again_without_overlap:
  "history (JobStatus_run sequential_run (JobStatus_mount [job_b ''pending'', job_a ''running'']))
     = [Requested (JStr ''b''),
        Answered (JStr ''b'') (answered (job_b ''pending'')),
        Requested (JStr ''a''),
        Answered (JStr ''a'') (answered (job_a ''completed'')),
        Requested (JStr ''b''),
        Answered (JStr ''b'') (answered (job_b ''pending''))]"
proof -
  let ?s3 = "JobStatus_run (take 3 sequential_run)
      (JobStatus_mount [job_b ''pending'', job_a ''running''])"
  let ?cb = "\<lparr> updatedJobs = [job_b ''pending'', job_a ''completed''], hasUpdates = False,
        jobId = JStr ''b'', remaining = [] \<rparr>"
  have 4: "fire ?s3
     = \<lparr> jobs = [job_b ''pending'', job_a ''completed''],
         pollingJobs = [JStr ''b''],
         callbacks = [None, Some ?cb],
         history = [Requested (JStr ''b''),
                    Answered (JStr ''b'') (answered (job_b ''pending'')),
                    Requested (JStr ''a''),
                    Answered (JStr ''a'') (answered (job_a ''completed'')),
                    Requested (JStr ''b'')],
         unmounted = False \<rparr>"
    by (simp add: sequential_3 fire_def)
  have "JobStatus_run sequential_run (JobStatus_mount [job_b ''pending'', job_a ''running''])
    = JobStatus_step (Answer 1 (answered (job_b ''pending''))) (fire ?s3)"
    using run_snoc [of "take 4 sequential_run"] run_snoc [of "take 3 sequential_run"]
    by (simp add: sequential_run_def)
  also have "\<dots> = resume 1 ?cb (answered (job_b ''pending'')) (fire ?s3)"
    by (simp add: 4)
  finally show ?thesis
    by (simp add: resume_def third_answer 4 setJobs_def renders_two track_running_def
        tracked_two new_Set_two del: tracked_ids.simps)
qed

section \<open>Properties of the orchestration engine\<close>

lemma fields_ok_start: "fields_ok orchestrator_start"
  by (simp add: fields_ok_def orchestrator_start_def)

lemma fields_ok_step:
  "fields_ok s \<Longrightarrow> fields_ok (fst (orchestrator_step W e s))"
proof (cases e)
  case (Submitted k inp)
  assume "fields_ok s"
  with Submitted show ?thesis
    by (auto simp: fields_ok_def Orchestrator_Submit_def split: if_splits)
next
  case (PickedUp i)
  assume "fields_ok s"
  with PickedUp show ?thesis
    by (auto simp: fields_ok_def worker_pickup_def split: option.splits if_splits)
next
  case (StageFinished i r)
  assume "fields_ok s"
  with StageFinished show ?thesis
    by (auto simp: fields_ok_def stage_finished_def Let_def
        split: option.splits if_splits stage_result.splits)
qed

lemma run_invariant:
  assumes step: "\<And>s e. P s \<Longrightarrow> P (fst (orchestrator_step W e s))" and "P s"
  shows "P (fst (orchestrator_run W es s))"
  using assms(2)
proof (induction es arbitrary: s)
  case Nil
  then show ?case by simp
next
  case (Cons e es)
  from Cons.IH [OF step [OF Cons.prems, of e]]
  show ?case by (simp add: case_prod_beta)
qed

text \<open>
  C2. For every job the orchestrator holds, the result is set if and only if the
  status is completed and the error is set if and only if the status is failed: so
  neither is set while the job is pending or running, and exactly one of them is set
  once it is completed or failed.
\<close>

theorem result_xor_error:
  "store (reached W es) i = Some j \<Longrightarrow>
     (jr_result j \<noteq> None \<longleftrightarrow> jr_status j = completed)
   \<and> (jr_error j \<noteq> None \<longleftrightarrow> jr_status j = failed)
   \<and> (jr_status j = pending \<or> jr_status j = running
        \<longrightarrow> jr_result j = None \<and> jr_error j = None)
   \<and> (jr_status j = completed \<or> jr_status j = failed
        \<longrightarrow> (jr_result j = None) \<noteq> (jr_error j = None))"
proof -
  assume a: "store (reached W es) i = Some j"
  have "fields_ok (reached W es)"
    unfolding reached_def
    by (rule run_invariant [where P = fields_ok]) (simp_all add: fields_ok_step fields_ok_start)
  with a have "(jr_result j \<noteq> None \<longleftrightarrow> jr_status j = completed)
      \<and> (jr_error j \<noteq> None \<longleftrightarrow> jr_status j = failed)"
    unfolding fields_ok_def by blast
  then show ?thesis
    by (cases "jr_status j") auto
qed

lemma ids_ok_step:
  assumes "ids_ok s ids" and "orchestrator_step W e s = (s1, ids1)"
  shows "ids_ok s1 (ids @ ids1)"
proof (cases e)
  case (Submitted k inp)
  with assms show ?thesis
    by (auto simp: ids_ok_def Orchestrator_Submit_def less_Suc_eq split: if_splits)
next
  case (PickedUp i)
  with assms show ?thesis
    by (auto simp: ids_ok_def worker_pickup_def split: option.splits if_splits)
next
  case (StageFinished i r)
  with assms show ?thesis
    by (auto simp: ids_ok_def stage_finished_def Let_def
        split: option.splits if_splits stage_result.splits)
qed

lemma ids_ok_run:
  assumes "ids_ok s ids" and "orchestrator_run W es s = (s2, ids2)"
  shows "ids_ok s2 (ids @ ids2)"
  using assms
proof (induction es arbitrary: s ids s2 ids2)
  case Nil
  then show ?case by simp
next
  case (Cons e es)
  obtain s1 ids1 where 1: "orchestrator_step W e s = (s1, ids1)" by fastforce
  obtain s3 ids3 where 3: "orchestrator_run W es s1 = (s3, ids3)" by fastforce
  from Cons.prems(2) 1 3 have eq: "s2 = s3" "ids2 = ids1 @ ids3" by simp_all
  from Cons.IH [OF ids_ok_step [OF Cons.prems(1) 1] 3] eq show ?case by simp
qed

text \<open>
  C8. For every identifier that no \<open>Submit\<close> of the run returned, a query returns
  not-found: no record, and so no default or zero-valued one.
\<close>

theorem query_unknown_id:
  "i \<notin> set (returned_ids W es) \<Longrightarrow> Orchestrator_Query (reached W es) i = None"
proof -
  assume a: "i \<notin> set (returned_ids W es)"
  have "ids_ok orchestrator_start []" by (simp add: ids_ok_def orchestrator_start_def)
  from ids_ok_run [OF this, of W es "reached W es" "returned_ids W es"]
  have "ids_ok (reached W es) (returned_ids W es)"
    by (simp add: reached_def returned_ids_def)
  with a show ?thesis by (auto simp: ids_ok_def Orchestrator_Query_def)
qed

lemma sum_take_nonneg:
  "\<forall>w \<in> set ws. (0::real) \<le> w \<Longrightarrow> 0 \<le> sum_list (take n ws)"
  by (rule sum_list_nonneg) (auto dest: in_set_takeD)

lemma sum_take_Suc:
  "\<forall>w \<in> set ws. (0::real) \<le> w \<Longrightarrow> sum_list (take n ws) \<le> sum_list (take (Suc n) ws)"
proof (induction ws arbitrary: n)
  case Nil
  then show ?case by simp
next
  case (Cons w ws)
  then show ?case by (cases n) (simp_all add: sum_take_nonneg)
qed

lemma sum_take_le:
  "\<forall>w \<in> set ws. (0::real) \<le> w \<Longrightarrow> sum_list (take n ws) \<le> sum_list ws"
proof (induction ws arbitrary: n)
  case Nil
  then show ?case by simp
next
  case (Cons w ws)
  then show ?case by (cases n) (simp_all add: sum_list_nonneg)
qed

lemma progress_after_0: "progress_after ws 0 = 0"
  by (simp add: progress_after_def)

lemma progress_after_bounds:
  assumes "\<forall>w \<in> set ws. 0 \<le> w" and "0 < sum_list ws"
  shows "0 \<le> progress_after ws n" and "progress_after ws n \<le> 1"
    and "progress_after ws n \<le> progress_after ws (Suc n)"
  using assms sum_take_nonneg [OF assms(1), of n] sum_take_le [OF assms(1), of n]
    sum_take_Suc [OF assms(1), of n]
  by (simp_all add: progress_after_def divide_right_mono)

lemma progress_after_all:
  "0 < sum_list ws \<Longrightarrow> length ws \<le> n \<Longrightarrow> progress_after ws n = 1"
  by (simp add: progress_after_def)

lemma progress_okD:
  "progress_ok W s \<Longrightarrow> store s i = Some j \<Longrightarrow> job_ok W i (next_id s) (stages_done s i) j"
  by (simp add: progress_ok_def)

lemma progress_ok_start: "progress_ok W orchestrator_start"
  by (simp add: progress_ok_def orchestrator_start_def)

lemma well_weightedD:
  "well_weighted W \<Longrightarrow> (\<forall>w \<in> set (W k). 0 \<le> w) \<and> 0 < sum_list (W k)"
  by (simp add: well_weighted_def)

lemma job_ok_next: "job_ok W i n d j \<Longrightarrow> job_ok W i (Suc n) d j"
  by (simp add: job_ok_def)

lemma progress_ok_Submit:
  assumes ok: "progress_ok W s"
  shows "progress_ok W (snd (Orchestrator_Submit k inp s))"
proof (cases "input_is_empty inp")
  case True
  with ok show ?thesis by (simp add: Orchestrator_Submit_def)
next
  case False
  show ?thesis
    unfolding progress_ok_def
  proof (intro allI impI)
    fix i j
    assume a: "store (snd (Orchestrator_Submit k inp s)) i = Some j"
    show "job_ok W i (next_id (snd (Orchestrator_Submit k inp s)))
            (stages_done (snd (Orchestrator_Submit k inp s)) i) j"
    proof (cases "i = next_id s")
      case True
      with a False show ?thesis
        by (auto simp: Orchestrator_Submit_def job_ok_def)
    next
      case ne: False
      with a False have "store s i = Some j" by (simp add: Orchestrator_Submit_def)
      from job_ok_next [OF progress_okD [OF ok this]] ne False show ?thesis
        by (simp add: Orchestrator_Submit_def)
    qed
  qed
qed

lemma progress_ok_update:
  assumes ok: "progress_ok W s"
    and st: "store s' = (store s)(i \<mapsto> j')"
    and nx: "next_id s' = next_id s"
    and sd: "\<And>k. k \<noteq> i \<Longrightarrow> stages_done s' k = stages_done s k"
    and new: "job_ok W i (next_id s) (stages_done s' i) j'"
  shows "progress_ok W s'"
  unfolding progress_ok_def
proof (intro allI impI)
  fix k j
  assume a: "store s' k = Some j"
  show "job_ok W k (next_id s') (stages_done s' k) j"
  proof (cases "k = i")
    case True
    with a st new nx show ?thesis by simp
  next
    case False
    with a st have "store s k = Some j" by simp
    from progress_okD [OF ok this] sd [OF False] nx show ?thesis by simp
  qed
qed

lemma progress_ok_pickup:
  assumes ok: "progress_ok W s"
  shows "progress_ok W (worker_pickup i s)"
proof (cases "store s i")
  case None
  with ok show ?thesis by (simp add: worker_pickup_def)
next
  case (Some j)
  show ?thesis
  proof (cases "jr_status j = pending")
    case False
    with ok Some show ?thesis by (simp add: worker_pickup_def)
  next
    case True
    from progress_okD [OF ok Some] True
    have "job_ok W i (next_id s) (stages_done s i)
            (j\<lparr> jr_status := running, updatedAt := clock s \<rparr>)"
      by (simp add: job_ok_def progress_after_0)
    with Some True show ?thesis
      by (intro progress_ok_update [OF ok, where i = i]) (simp_all add: worker_pickup_def)
  qed
qed

lemma progress_ok_stage:
  assumes W: "well_weighted W" and ok: "progress_ok W s"
  shows "progress_ok W (stage_finished W i r s)"
proof (cases "store s i")
  case None
  with ok show ?thesis by (simp add: stage_finished_def)
next
  case (Some j)
  note b = progress_after_bounds [OF well_weightedD [OF W, THEN conjunct1]
      well_weightedD [OF W, THEN conjunct2]]
  note jok = progress_okD [OF ok Some]
  show ?thesis
  proof (cases "jr_status j = running")
    case False
    with ok Some show ?thesis by (simp add: stage_finished_def)
  next
    case True
    show ?thesis
    proof (cases r)
      case (Failed_with e)
      from jok have "job_ok W i (next_id s) (stages_done s i)
            (j\<lparr> jr_status := failed, jr_error := Some e, updatedAt := clock s \<rparr>)"
        by (simp add: job_ok_def)
      with Some True Failed_with show ?thesis
        by (intro progress_ok_update [OF ok, where i = i]) (simp_all add: stage_finished_def)
    next
      case (Succeeded out)
      let ?n = "Suc (stages_done s i)"
      let ?p = "progress_after (W (jr_kind j)) ?n"
      show ?thesis
      proof (cases "?n < length (W (jr_kind j))")
        case more: True
        from jok b(1) [of "jr_kind j" ?n] b(2) [of "jr_kind j" ?n]
        have "job_ok W i (next_id s) ?n (j\<lparr> jr_progress := ?p, updatedAt := clock s \<rparr>)"
          using True by (simp add: job_ok_def)
        with Some True Succeeded more show ?thesis
          by (intro progress_ok_update [OF ok, where i = i])
            (simp_all add: stage_finished_def Let_def)
      next
        case last: False
        have "?p = 1"
          using progress_after_all [of "W (jr_kind j)" ?n] well_weightedD [OF W, of "jr_kind j"]
            last by simp
        with jok
        have "job_ok W i (next_id s) ?n
                (j\<lparr> jr_status := completed, jr_progress := ?p, jr_result := Some out,
                    updatedAt := clock s \<rparr>)"
          by (simp add: job_ok_def)
        with Some True Succeeded last show ?thesis
          by (intro progress_ok_update [OF ok, where i = i])
            (simp_all add: stage_finished_def Let_def)
      qed
    qed
  qed
qed

lemma step_Submitted_fst:
  "fst (orchestrator_step W (Submitted k inp) s) = snd (Orchestrator_Submit k inp s)"
  by (simp split: prod.splits sum.splits)

lemma progress_ok_step:
  assumes "well_weighted W" and "progress_ok W s"
  shows "progress_ok W (fst (orchestrator_step W e s))"
proof (cases e)
  case (Submitted k inp)
  with progress_ok_Submit [OF assms(2), of k inp] show ?thesis
    by (simp only: step_Submitted_fst)
next
  case (PickedUp i)
  with progress_ok_pickup [OF assms(2)] show ?thesis by simp
next
  case (StageFinished i r)
  with progress_ok_stage [OF assms] show ?thesis by simp
qed

lemma progress_ok_reached: "well_weighted W \<Longrightarrow> progress_ok W (reached W es)"
  unfolding reached_def
  by (rule run_invariant [where P = "progress_ok W"])
    (simp_all add: progress_ok_step progress_ok_start)

lemma step_keeps_job:
  assumes W: "well_weighted W" and ok: "progress_ok W s" and j: "store s i = Some j"
  shows "\<exists>j'. store (fst (orchestrator_step W e s)) i = Some j'
           \<and> jr_progress j \<le> jr_progress j'
           \<and> (jr_status j' = failed \<longrightarrow> jr_progress j' = jr_progress j)
           \<and> (jr_status j = failed \<longrightarrow> jr_status j' = failed)
           \<and> (jr_status j = completed \<longrightarrow> jr_status j' = completed)"
proof (cases e)
  case (Submitted k inp)
  from progress_okD [OF ok j] have "i \<noteq> next_id s" by (simp add: job_ok_def)
  with j have "store (snd (Orchestrator_Submit k inp s)) i = Some j"
    by (simp add: Orchestrator_Submit_def)
  with Submitted show ?thesis by (simp only: step_Submitted_fst) simp
next
  case (PickedUp k)
  show ?thesis
  proof (cases "k = i \<and> jr_status j = pending")
    case True
    with j PickedUp show ?thesis by (simp add: worker_pickup_def)
  next
    case False
    with j have "store (worker_pickup k s) i = Some j"
      by (cases "store s k") (auto simp: worker_pickup_def)
    with PickedUp show ?thesis by simp
  qed
next
  case (StageFinished k r)
  note b = progress_after_bounds [OF well_weightedD [OF W, THEN conjunct1]
      well_weightedD [OF W, THEN conjunct2]]
  show ?thesis
  proof (cases "k = i \<and> jr_status j = running")
    case False
    with j have "store (stage_finished W k r s) i = Some j"
      by (cases "store s k"; cases r) (auto simp: stage_finished_def Let_def)
    with StageFinished show ?thesis by simp
  next
    case True
    with progress_okD [OF ok j]
    have p: "jr_progress j = progress_after (W (jr_kind j)) (stages_done s i)"
      by (simp add: job_ok_def)
    show ?thesis
    proof (cases r)
      case (Failed_with e')
      with True j StageFinished show ?thesis by (simp add: stage_finished_def)
    next
      case (Succeeded out)
      with True j StageFinished p b(3) [of "jr_kind j" "stages_done s i"] show ?thesis
        by (simp add: stage_finished_def Let_def)
    qed
  qed
qed

text \<open>
  C1. When every stage weight is non-negative and every pipeline has a positive
  total weight, then for every job the orchestrator holds the progress lies between
  0 and 1 and is exactly 1 when the status is completed; and over any step of the
  orchestrator the job stays in the store, its progress does not decrease, a job that
  is failed after the step has the progress it had before it, and a failed or
  completed job keeps its status.
\<close>

theorem progress_invariants:
  assumes "well_weighted W" and "store (reached W es) i = Some j"
  shows "0 \<le> jr_progress j \<and> jr_progress j \<le> 1
     \<and> (jr_status j = completed \<longrightarrow> jr_progress j = 1)
     \<and> (\<exists>j'. store (fst (orchestrator_step W e (reached W es))) i = Some j'
           \<and> jr_progress j \<le> jr_progress j'
           \<and> (jr_status j' = failed \<longrightarrow> jr_progress j' = jr_progress j)
           \<and> (jr_status j = failed \<longrightarrow> jr_status j' = failed)
           \<and> (jr_status j = completed \<longrightarrow> jr_status j' = completed))"
proof -
  have ok: "progress_ok W (reached W es)" using progress_ok_reached [OF assms(1)] .
  from progress_okD [OF ok assms(2)]
  have "0 \<le> jr_progress j \<and> jr_progress j \<le> 1
     \<and> (jr_status j = completed \<longrightarrow> jr_progress j = 1)"
    by (simp add: job_ok_def)
  with step_keeps_job [OF assms(1) ok assms(2), of e] show ?thesis by simp
qed

lemma well_weighted_equal_split: "well_weighted equal_split"
  unfolding well_weighted_def
proof
  fix k show "(\<forall>w \<in> set (equal_split k). 0 \<le> w) \<and> 0 < sum_list (equal_split k)"
    by (cases k) simp_all
qed

lemma example_run:
  "orchestrator_run equal_split example_events orchestrator_start
     = (\<lparr> store = (\<lambda>i. None)(0 \<mapsto> example_record), next_id = 1, clock = 4,
          stages_done = (\<lambda>i. 0)(0 := 2) \<rparr>, [0])"
  by (simp add: example_events_def example_record_def orchestrator_start_def
      Orchestrator_Submit_def worker_pickup_def stage_finished_def progress_after_def
      Let_def eval_nat_numeral)

lemma example_reached: "store (reached equal_split example_events) 0 = Some example_record"
  by (simp add: reached_def example_run)

lemma example_returned: "returned_ids equal_split example_events = [0]"
  by (simp add: returned_ids_def example_run)

theorem progress_invariants_witness:
  "well_weighted equal_split
   \<and> store (reached equal_split example_events) 0 = Some example_record
   \<and> jr_progress example_record = 1/2
   \<and> (\<exists>j'. store (fst (orchestrator_step equal_split (StageFinished 0 (Succeeded ten_documents))
                  (reached equal_split example_events))) 0 = Some j'
          \<and> jr_progress example_record \<le> jr_progress j')"
  using progress_invariants [OF well_weighted_equal_split example_reached,
      of "StageFinished 0 (Succeeded ten_documents)"]
    well_weighted_equal_split example_reached
  by (auto simp: example_record_def)

theorem result_xor_error_witness:
  "store (reached equal_split example_events) 0 = Some example_record
   \<and> jr_status example_record = running
   \<and> jr_result example_record = None \<and> jr_error example_record = None"
  using result_xor_error [OF example_reached] example_reached
  by (simp add: example_record_def)

theorem query_unknown_id_witness:
  "1 \<notin> set (returned_ids equal_split example_events)
   \<and> Orchestrator_Query (reached equal_split example_events) 1 = None"
proof -
  have "1 \<notin> set (returned_ids equal_split example_events)"
    by (simp add: example_returned)
  with query_unknown_id [OF this] show ?thesis by simp
qed

text \<open>
  Two further facts of the model: a submission with an empty input is refused with a
  \<open>ValidationError\<close> and changes neither the store nor the list; and a job that is
  completed or failed keeps its status in every continuation of the run.
\<close>

lemma Submit_empty_refused:
  "input_is_empty inp \<Longrightarrow>
     Orchestrator_Submit k inp s = (Inl ValidationError, s)
     \<and> Orchestrator_List (snd (Orchestrator_Submit k inp s)) n = Orchestrator_List s n"
  by (simp add: Orchestrator_Submit_def)

lemma run_append:
  "orchestrator_run W (es @ es') s
     = (case orchestrator_run W es s of
          (s1, ids1) \<Rightarrow>
            (case orchestrator_run W es' s1 of (s2, ids2) \<Rightarrow> (s2, ids1 @ ids2)))"
  by (induction es arbitrary: s) (simp_all add: case_prod_beta)

lemma reached_snoc:
  "reached W (es @ [e]) = fst (orchestrator_step W e (reached W es))"
  by (simp add: reached_def run_append case_prod_beta)

lemma terminal_is_sink:
  assumes W: "well_weighted W" and j: "store (reached W es) i = Some j"
    and t: "jr_status j = completed \<or> jr_status j = failed"
  shows "\<exists>j'. store (reached W (es @ es')) i = Some j' \<and> jr_status j' = jr_status j"
proof (induction es' rule: rev_induct)
  case Nil
  with j show ?case by simp
next
  case (snoc e es')
  then obtain j1 where 1: "store (reached W (es @ es')) i = Some j1"
    and s1: "jr_status j1 = jr_status j" by blast
  from step_keeps_job [OF W progress_ok_reached [OF W] 1, of e] t s1
  show ?case
    by (auto simp: reached_snoc [of W "es @ es'" e, simplified])
qed

text \<open>
  C5. For every submission whose prompt is the empty string, \<open>Submit\<close> returns a
  \<open>ValidationError\<close> at once and leaves the orchestrator as it was: no job is
  created, and every run goes on as if the submission had not been made, so that no
  later \<open>List\<close> includes a job for it and no identifier was returned for it.
\<close>

theorem empty_prompt_refused:
  "Orchestrator_Submit k (Prompt [] h) s = (Inl ValidationError, s)
   \<and> orchestrator_run W (es @ Submitted k (Prompt [] h) # es') s0
       = orchestrator_run W (es @ es') s0
   \<and> store (reached W (es @ Submitted k (Prompt [] h) # es')) = store (reached W (es @ es'))
   \<and> Orchestrator_List (reached W (es @ Submitted k (Prompt [] h) # es')) n
       = Orchestrator_List (reached W (es @ es')) n
   \<and> returned_ids W (es @ Submitted k (Prompt [] h) # es') = returned_ids W (es @ es')"
proof -
  have refused: "Orchestrator_Submit k (Prompt [] h) s = (Inl ValidationError, s)" for s
    by (simp add: Orchestrator_Submit_def)
  have "orchestrator_run W (Submitted k (Prompt [] h) # es') s = orchestrator_run W es' s" for s
    by (simp add: refused case_prod_beta)
  then have "orchestrator_run W (es @ Submitted k (Prompt [] h) # es') s
      = orchestrator_run W (es @ es') s" for s
    by (simp add: run_append)
  with refused show ?thesis
    by (simp add: reached_def returned_ids_def)
qed


end
